theory Spec2Isabelle
  imports Main
begin

section \<open>Strings and exceptions\<close>

text \<open>
  A Python \<open>str\<close> is a sequence of Unicode code points; it is modelled as a list of
  natural numbers, so that \<open>len\<close> counts code points and no input string is excluded.
  The literals of the program are written as HOL strings and converted by \<open>str\<close>.
\<close>

type_synonym pystr = "nat list"

definition ord :: "char \<Rightarrow> nat" where
  "ord c = of_char c"

definition str :: "string \<Rightarrow> pystr" where
  "str s = map ord s"

text \<open>The decimal numeral of a natural number, as \<open>str(n)\<close> and \<open>%d\<close> write it.\<close>

fun str_nat :: "nat \<Rightarrow> pystr" where
  "str_nat n = (if n < 10 then [ord CHR ''0'' + n] else str_nat (n div 10) @ [ord CHR ''0'' + n mod 10])"

text \<open>
  Exceptions carry their class and their message (\<open>str(e)\<close>). The classes are those the
  views name, with the hierarchy of the extraction library: \<open>RegexMatchError\<close>,
  \<open>VideoUnavailable\<close> and \<open>AgeRestrictedError\<close> derive from \<open>PytubeError\<close>.
  \<open>OtherPytubeError\<close> stands for any further subclass of \<open>PytubeError\<close>,
  \<open>OtherException\<close> for any other subclass of \<open>Exception\<close>, both by class name.
\<close>

datatype exn_class =
    PytubeError
  | RegexMatchError
  | VideoUnavailable
  | AgeRestrictedError
  | OtherPytubeError string
  | FileNotFoundError
  | TypeError
  | OverflowError
  | OtherException string

datatype exn = Exn (exn_cls: exn_class) (exn_msg: pystr)

fun is_PytubeError :: "exn_class \<Rightarrow> bool" where
  "is_PytubeError PytubeError = True"
| "is_PytubeError RegexMatchError = True"
| "is_PytubeError VideoUnavailable = True"
| "is_PytubeError AgeRestrictedError = True"
| "is_PytubeError (OtherPytubeError n) = True"
| "is_PytubeError FileNotFoundError = False"
| "is_PytubeError TypeError = False"
| "is_PytubeError OverflowError = False"
| "is_PytubeError (OtherException n) = False"

section \<open>Regular expressions as the views use them\<close>

text \<open>
  The fragment of Python's \<open>re\<close> syntax that the four patterns of
  \<open>sanitize_youtube_url\<close> are written in: literal text, a character class given by
  ranges, sequence, alternation \<open>a|b\<close>, the greedy option \<open>a?\<close>, the exact repetition
  \<open>a{n}\<close> and the capturing group (the patterns have one, group 1; \<open>(?:...)\<close> only
  brackets).
\<close>

datatype regex =
    Lit pystr
  | Cls "(nat \<times> nat) list"
  | Seq regex regex
  | Alt regex regex
  | Opt regex
  | Rep nat regex
  | Grp regex

fun strip_prefix :: "pystr \<Rightarrow> pystr \<Rightarrow> pystr option" where
  "strip_prefix [] s = Some s"
| "strip_prefix (c # l) [] = None"
| "strip_prefix (c # l) (d # s) = (if c = d then strip_prefix l s else None)"

fun in_class :: "(nat \<times> nat) list \<Rightarrow> nat \<Rightarrow> bool" where
  "in_class [] c = False"
| "in_class ((lo, hi) # rs) c = ((lo \<le> c \<and> c \<le> hi) \<or> in_class rs c)"

text \<open>
  A backtracking matcher, as \<open>re\<close> is: \<open>rmatch r s\<close> lists, in the order the engine
  tries them, the ways \<open>r\<close> matches at the start of \<open>s\<close>, each as the text captured by
  group 1 (if the group took part) and the text left over. The greedy option tries its
  body first and the empty match last; an alternation tries its left branch first.
\<close>

definition keep_group :: "pystr option \<Rightarrow> pystr option \<Rightarrow> pystr option" where
  "keep_group g g' = (case g' of None \<Rightarrow> g | Some x \<Rightarrow> Some x)"

function rmatch :: "regex \<Rightarrow> pystr \<Rightarrow> (pystr option \<times> pystr) list" where
  "rmatch (Lit l) s = (case strip_prefix l s of Some r \<Rightarrow> [(None, r)] | None \<Rightarrow> [])"
| "rmatch (Cls rs) s =
     (case s of [] \<Rightarrow> [] | c # t \<Rightarrow> if in_class rs c then [(None, t)] else [])"
| "rmatch (Seq a b) s =
     concat (map (\<lambda>(g, r). map (\<lambda>(g', r'). (keep_group g g', r')) (rmatch b r)) (rmatch a s))"
| "rmatch (Alt a b) s = rmatch a s @ rmatch b s"
| "rmatch (Opt a) s = rmatch a s @ [(None, s)]"
| "rmatch (Rep 0 a) s = [(None, s)]"
| "rmatch (Rep (Suc n) a) s =
     concat (map (\<lambda>(g, r). map (\<lambda>(g', r'). (keep_group g g', r')) (rmatch (Rep n a) r))
       (rmatch a s))"
| "rmatch (Grp a) s = map (\<lambda>(g, r). (Some (take (length s - length r) s), r)) (rmatch a s)"
  by pat_completeness auto
termination
  by (relation "measures [\<lambda>(r, s). size r, \<lambda>(r, s). (case r of Rep n a \<Rightarrow> n | _ \<Rightarrow> 0)]")
    auto

text \<open>
  The match object of \<open>re.search\<close>: \<open>group1\<close> is \<open>match.group(1)\<close>, which is \<open>None\<close>
  when the group took no part in the match.
\<close>

datatype re_match = Match (group1: "pystr option")

text \<open>
  \<open>re.search(pattern, url)\<close>: the first position of the string, from the left, at which
  the pattern matches (the end of the string is a position too), with the first way the
  engine finds there; \<open>None\<close> when there is none.
\<close>

fun re_search :: "regex \<Rightarrow> pystr \<Rightarrow> re_match option" where
  "re_search r [] =
     (case rmatch r [] of (g, rest) # _ \<Rightarrow> Some (Match g) | [] \<Rightarrow> None)"
| "re_search r (c # t) =
     (case rmatch r (c # t) of (g, rest) # _ \<Rightarrow> Some (Match g) | [] \<Rightarrow> re_search r t)"

section \<open>The URL normalizer: \<open>sanitize_youtube_url\<close>\<close>

text \<open>The class \<open>[a-zA-Z0-9_-]\<close>.\<close>

definition id_class :: "(nat \<times> nat) list" where
  "id_class =
     [(ord CHR ''a'', ord CHR ''z''), (ord CHR ''A'', ord CHR ''Z''),
      (ord CHR ''0'', ord CHR ''9''), (ord CHR ''_'', ord CHR ''_''),
      (ord CHR ''-'', ord CHR ''-'')]"

text \<open>\<open>(?:https?:\/\/)?\<close> and \<open>(?:www\.|m\.)?\<close>, the start of each pattern.\<close>

definition rx_scheme :: regex where
  "rx_scheme = Opt (Seq (Lit (str ''http'')) (Seq (Opt (Lit (str ''s''))) (Lit (str ''://''))))"

definition rx_host :: regex where
  "rx_host = Opt (Alt (Lit (str ''www.'')) (Lit (str ''m.'')))"

text \<open>\<open>([a-zA-Z0-9_-]{11})\<close>, the end of each pattern.\<close>

definition rx_id :: regex where
  "rx_id = Grp (Rep 11 (Cls id_class))"

definition url_pattern :: "string \<Rightarrow> regex" where
  "url_pattern lit = Seq rx_scheme (Seq rx_host (Seq (Lit (str lit)) rx_id))"

definition patterns :: "regex list" where
  "patterns =
     [url_pattern ''youtu.be/'',
      url_pattern ''youtube.com/watch?v='',
      url_pattern ''youtube.com/embed/'',
      url_pattern ''youtube.com/v/'']"

text \<open>
  The constructor of the library's \<open>RegexMatchError\<close> is
  \<open>__init__(self, caller, pattern)\<close>, with the message
  \<open>{caller}: could not find match for {pattern}\<close>. A call with another number of
  arguments raises \<open>TypeError\<close>, and no \<open>RegexMatchError\<close> comes to exist.
\<close>

definition squote :: pystr where
  "squote = [39]"

fun new_RegexMatchError :: "pystr list \<Rightarrow> exn + exn" where
  "new_RegexMatchError [] =
     Inl (Exn TypeError
       (str ''RegexMatchError.__init__() missing 2 required positional arguments: '' @
        squote @ str ''caller'' @ squote @ str '' and '' @ squote @ str ''pattern'' @ squote))"
| "new_RegexMatchError [caller] =
     Inl (Exn TypeError
       (str ''RegexMatchError.__init__() missing 1 required positional argument: '' @
        squote @ str ''pattern'' @ squote))"
| "new_RegexMatchError [caller, pattern] =
     Inr (Exn RegexMatchError (caller @ str '': could not find match for '' @ pattern))"
| "new_RegexMatchError (caller # pattern # x # xs) =
     Inl (Exn TypeError
       (str ''RegexMatchError.__init__() takes 3 positional arguments but '' @
        str_nat (length xs + 4) @ str '' were given''))"

text \<open>\<open>raise C(args)\<close>: the exception raised is the one constructed, or the one the
  constructor raises.\<close>

definition raise_new :: "exn + exn \<Rightarrow> exn + 'a" where
  "raise_new made = (case made of Inl e \<Rightarrow> Inl e | Inr e \<Rightarrow> Inl e)"

text \<open>
  The loop over the patterns. \<open>len(match.group(1))\<close> raises \<open>TypeError\<close> on \<open>None\<close>;
  a match whose group is not 11 long lets the loop go on; the end of the loop is
  \<open>raise RegexMatchError("Invalid YouTube URL format")\<close>, a call of the constructor with
  one argument.
\<close>

fun try_patterns :: "regex list \<Rightarrow> pystr \<Rightarrow> exn + pystr" where
  "try_patterns [] url = raise_new (new_RegexMatchError [str ''Invalid YouTube URL format''])"
| "try_patterns (p # ps) url =
     (case re_search p url of
        None \<Rightarrow> try_patterns ps url
      | Some m \<Rightarrow>
          (case group1 m of
             None \<Rightarrow> Inl (Exn TypeError (str ''object of type 'NoneType' has no len()''))
           | Some g \<Rightarrow>
               if length g = 11 then Inr (str ''https://www.youtube.com/watch?v='' @ g)
               else try_patterns ps url))"

definition sanitize_youtube_url :: "pystr \<Rightarrow> exn + pystr" where
  "sanitize_youtube_url url = try_patterns patterns url"

section \<open>Built-ins of the language that the views call\<close>

text \<open>
  \<open>str.isspace\<close> on one code point: the white space of the Unicode database, which is
  what \<open>str.strip\<close> and \<open>str.rstrip\<close> remove when called without an argument.
\<close>

definition isspace :: "nat \<Rightarrow> bool" where
  "isspace c =
     ((9 \<le> c \<and> c \<le> 13) \<or> (28 \<le> c \<and> c \<le> 32) \<or> c = 133 \<or> c = 160 \<or> c = 5760 \<or>
      (8192 \<le> c \<and> c \<le> 8202) \<or> c = 8232 \<or> c = 8233 \<or> c = 8239 \<or> c = 8287 \<or> c = 12288)"

definition lstrip :: "pystr \<Rightarrow> pystr" where
  "lstrip s = dropWhile isspace s"

definition rstrip :: "pystr \<Rightarrow> pystr" where
  "rstrip s = rev (dropWhile isspace (rev s))"

definition strip :: "pystr \<Rightarrow> pystr" where
  "strip s = rstrip (lstrip s)"

text \<open>
  \<open>str.isalnum\<close> on one code point. On ASCII it is the letters and the digits; beyond
  ASCII it is a table of the Unicode database of the Python runtime, which is not part
  of the repository and is a parameter here.
\<close>

definition isalnum :: "(nat \<Rightarrow> bool) \<Rightarrow> nat \<Rightarrow> bool" where
  "isalnum uni c =
     (if c < 128 then
        (ord CHR ''0'' \<le> c \<and> c \<le> ord CHR ''9'') \<or> (ord CHR ''A'' \<le> c \<and> c \<le> ord CHR ''Z'') \<or>
        (ord CHR ''a'' \<le> c \<and> c \<le> ord CHR ''z'')
      else uni c)"

text \<open>Decimal numerals of integers: \<open>%d\<close>, \<open>%02d\<close> and \<open>{:,}\<close>.\<close>

definition str_int :: "int \<Rightarrow> pystr" where
  "str_int i = (if i < 0 then str ''-'' @ str_nat (nat (- i)) else str_nat (nat i))"

definition pad2 :: "int \<Rightarrow> pystr" where
  "pad2 i = (if 0 \<le> i \<and> i < 10 then str ''0'' @ str_int i else str_int i)"

function group_thousands :: "pystr \<Rightarrow> pystr" where
  "group_thousands ds =
     (if length ds \<le> 3 then ds
      else group_thousands (take (length ds - 3) ds) @ str '','' @ drop (length ds - 3) ds)"
  by pat_completeness auto
termination
  by (relation "measure length") auto

definition format_commas :: "int \<Rightarrow> pystr" where
  "format_commas i =
     (if i < 0 then str ''-'' @ group_thousands (str_nat (nat (- i)))
      else group_thousands (str_nat (nat i)))"

section \<open>The duration formatter: \<open>format_duration\<close>\<close>

text \<open>
  \<open>str(timedelta(seconds=seconds))\<close> for an integer count. The constructor splits the
  count into days and seconds of the day (floor division) and raises \<open>OverflowError\<close>
  beyond 999999999 days; the string is \<open>%d:%02d:%02d\<close> of the seconds of the day, after
  \<open>D day, \<close> or \<open>D days, \<close> when the days are not zero.
\<close>

definition format_duration :: "int \<Rightarrow> exn + pystr" where
  "format_duration seconds =
     (let days = seconds div 86400;
          secs = seconds mod 86400;
          mm = secs div 60;
          ss = secs mod 60;
          hh = mm div 60;
          mm' = mm mod 60;
          s = str_int hh @ str '':'' @ pad2 mm' @ str '':'' @ pad2 ss
      in if \<bar>days\<bar> > 999999999 then
           Inl (Exn OverflowError
             (str ''days='' @ str_int days @ str ''; must have magnitude <= 999999999''))
         else if days \<noteq> 0 then
           Inr (str_int days @ str '' day'' @ (if \<bar>days\<bar> \<noteq> 1 then str ''s'' else []) @
                str '', '' @ s)
         else Inr s)"

section \<open>The extraction library, as the views see it\<close>

text \<open>
  A stream descriptor, and the handle \<open>yt\<close> on a video. An access to a property of the
  handle goes to the remote service and either gives the value or raises.
\<close>

record stream =
  itag :: nat
  resolution :: pystr
  progressive :: bool
  file_extension :: pystr

record handle =
  yt_streams :: "exn + stream list"
  yt_title :: "exn + pystr"
  yt_length :: "exn + int"
  yt_views :: "exn + int"
  yt_author :: "exn + pystr"
  yt_thumbnail_url :: "exn + pystr"
  yt_video_id :: pystr

text \<open>
  Modelled from the spec: the selection operations of the stream collection, which are
  code of the extraction library. The spec gives them as: the stream with maximum
  resolution among the available encodings, the stream with minimum resolution, the
  stream exactly matching a resolution label or none, and (for the info page) the
  progressive MP4 streams sorted by descending resolution. A resolution label such as
  \<open>720p\<close> is compared by the number its digits spell.
\<close>

definition res_value :: "pystr \<Rightarrow> nat" where
  "res_value label =
     foldl (\<lambda>n c. 10 * n + (c - ord CHR ''0'')) 0
       (filter (\<lambda>c. ord CHR ''0'' \<le> c \<and> c \<le> ord CHR ''9'') label)"

definition higher :: "stream \<Rightarrow> stream \<Rightarrow> stream" where
  "higher t best = (if res_value (resolution best) < res_value (resolution t) then t else best)"

definition lower :: "stream \<Rightarrow> stream \<Rightarrow> stream" where
  "lower t best = (if res_value (resolution t) < res_value (resolution best) then t else best)"

fun get_highest_resolution :: "stream list \<Rightarrow> stream option" where
  "get_highest_resolution [] = None"
| "get_highest_resolution (s # ss) = Some (fold higher ss s)"

fun get_lowest_resolution :: "stream list \<Rightarrow> stream option" where
  "get_lowest_resolution [] = None"
| "get_lowest_resolution (s # ss) = Some (fold lower ss s)"

definition get_by_resolution :: "pystr \<Rightarrow> stream list \<Rightarrow> stream option" where
  "get_by_resolution label ss = find (\<lambda>s. resolution s = label) ss"

definition progressive_mp4_desc :: "stream list \<Rightarrow> stream list" where
  "progressive_mp4_desc ss =
     rev (sort_key (\<lambda>s. res_value (resolution s))
       (filter (\<lambda>s. progressive s \<and> file_extension s = str ''mp4'') ss))"

section \<open>The world the views run in\<close>

text \<open>
  What a run does beyond its response is recorded as a trace of events, in order: the
  calls of the normalizer, the constructions of a handle (the network calls of the
  fetcher), the waits, the log records, and the file operations.
\<close>

datatype event =
    Ev_sanitize pystr
  | Ev_construct pystr
  | Ev_sleep int
  | Ev_log_warning pystr
  | Ev_log_error pystr
  | Ev_makedirs
  | Ev_download stream pystr
  | Ev_read pystr

record world =
  trace :: "event list"
  files :: "pystr \<Rightarrow> nat list option"

definition emit :: "event \<Rightarrow> world \<Rightarrow> world" where
  "emit ev w = w\<lparr>trace := trace w @ [ev]\<rparr>"

fun is_construct :: "event \<Rightarrow> bool" where
  "is_construct (Ev_construct u) = True"
| "is_construct _ = False"

fun is_sanitize :: "event \<Rightarrow> bool" where
  "is_sanitize (Ev_sanitize u) = True"
| "is_sanitize _ = False"

definition constructions :: "world \<Rightarrow> nat" where
  "constructions w = length (filter is_construct (trace w))"

fun sleep_of :: "event \<Rightarrow> int list" where
  "sleep_of (Ev_sleep n) = [n]"
| "sleep_of _ = []"

definition sleeps :: "world \<Rightarrow> int list" where
  "sleeps w = concat (map sleep_of (trace w))"

text \<open>
  The collaborators outside the repository. \<open>remote k url\<close> is what the \<open>k\<close>-th
  construction of a handle (counted from 0) gives: \<open>YouTube(url, ...)\<close>,
  \<open>bypass_age_gate()\<close> and the access to \<open>vid_info\<close> together, which return the handle or
  raise. \<open>makedirs\<close> is the outcome of \<open>os.makedirs\<close>, \<open>retrieve\<close> that of
  \<open>stream.download\<close> on the downloads directory (the exception raised, if any, and the
  files afterwards), \<open>unicode_alnum\<close> the table of \<open>str.isalnum\<close> beyond ASCII.
\<close>

record env =
  remote :: "nat \<Rightarrow> pystr \<Rightarrow> exn + handle"
  makedirs :: "exn option"
  retrieve :: "stream \<Rightarrow> pystr \<Rightarrow> (pystr \<Rightarrow> nat list option) \<Rightarrow> exn option \<times> (pystr \<Rightarrow> nat list option)"
  unicode_alnum :: "nat \<Rightarrow> bool"

section \<open>The metadata fetcher: \<open>get_yt_object\<close>\<close>

text \<open>
  The loop \<open>for attempt in range(max_retries)\<close>, with \<open>attempt\<close> as its counter. Every
  exception of a construction is caught, logged and, unless the attempt is the last one,
  followed by a wait of \<open>2 ** attempt\<close>; the end of the loop raises \<open>PytubeError\<close>.
\<close>

function get_yt_loop :: "env \<Rightarrow> pystr \<Rightarrow> int \<Rightarrow> int \<Rightarrow> world \<Rightarrow> (exn + handle) \<times> world" where
  "get_yt_loop E url max_retries attempt w =
     (if attempt < max_retries then
        (case remote E (constructions w) url of
           Inr yt \<Rightarrow> (Inr yt, emit (Ev_construct url) w)
         | Inl e \<Rightarrow>
             (let w1 = emit (Ev_log_warning
                         (str ''Attempt '' @ str_int (attempt + 1) @ str '' failed: '' @ exn_msg e))
                         (emit (Ev_construct url) w);
                  w2 = (if attempt < max_retries - 1 then emit (Ev_sleep (2 ^ nat attempt)) w1
                        else w1)
              in get_yt_loop E url max_retries (attempt + 1) w2))
      else
        (Inl (Exn PytubeError
           (str ''Could not initialize YouTube object. Check your network or try another video.'')),
         w))"
  by pat_completeness auto
termination
  by (relation "measure (\<lambda>(E, url, max_retries, attempt, w). nat (max_retries - attempt))") auto

definition get_yt_object :: "env \<Rightarrow> pystr \<Rightarrow> int \<Rightarrow> world \<Rightarrow> (exn + handle) \<times> world" where
  "get_yt_object E url max_retries w = get_yt_loop E url max_retries 0 w"

section \<open>Requests and responses\<close>

text \<open>
  A request is its method and its form fields; \<open>POST_get\<close> is \<open>request.POST.get\<close> with
  its default. A response is a rendered template with its context, a bad-request
  response, a binary response with its content type and disposition, or a redirect.
\<close>

record request =
  req_method :: pystr
  req_POST :: "string \<Rightarrow> pystr option"

definition POST_get :: "request \<Rightarrow> string \<Rightarrow> pystr \<Rightarrow> pystr" where
  "POST_get req key dflt = (case req_POST req key of None \<Rightarrow> dflt | Some v \<Rightarrow> v)"

datatype ctx_value = CStr pystr | CBool bool | CStreams "stream list"

type_synonym page_context = "(string \<times> ctx_value) list"

datatype response =
    Render string page_context
  | HttpResponseBadRequest pystr
  | HttpResponse "nat list" pystr pystr
  | Redirect string

fun status_code :: "response \<Rightarrow> nat" where
  "status_code (Render t c) = 200"
| "status_code (HttpResponseBadRequest b) = 400"
| "status_code (HttpResponse b t d) = 200"
| "status_code (Redirect n) = 302"

section \<open>The info handler: \<open>home\<close>\<close>

definition bind :: "exn + 'a \<Rightarrow> ('a \<Rightarrow> exn + 'b) \<Rightarrow> exn + 'b" where
  "bind x f = (case x of Inl e \<Rightarrow> Inl e | Inr v \<Rightarrow> f v)"

text \<open>
  The accesses to the handle inside the \<open>try\<close> of \<open>home\<close>, in the order the statements
  evaluate them; the first that raises ends the block.
\<close>

definition home_context :: "handle \<Rightarrow> pystr \<Rightarrow> exn + page_context" where
  "home_context yt clean_url =
     bind (yt_streams yt) (\<lambda>all_streams.
     bind (yt_title yt) (\<lambda>title.
     bind (yt_length yt) (\<lambda>len.
     bind (format_duration len) (\<lambda>duration.
     bind (yt_views yt) (\<lambda>views.
     bind (yt_author yt) (\<lambda>author.
     bind (yt_thumbnail_url yt) (\<lambda>thumbnail.
       Inr [(''title'', CStr title),
            (''duration'', CStr duration),
            (''views'', CStr (format_commas views)),
            (''author'', CStr author),
            (''thumbnail'', CStr thumbnail),
            (''streams'', CStreams (progressive_mp4_desc all_streams)),
            (''video_id'', CStr (yt_video_id yt)),
            (''clean_url'', CStr clean_url),
            (''success'', CBool True)])))))))"

definition home_try :: "env \<Rightarrow> pystr \<Rightarrow> world \<Rightarrow> (exn + page_context) \<times> world" where
  "home_try E url w =
     (let w1 = emit (Ev_sanitize url) w
      in case sanitize_youtube_url url of
           Inl e \<Rightarrow> (Inl e, w1)
         | Inr clean_url \<Rightarrow>
             (case get_yt_object E clean_url 3 w1 of
                (Inl e, w2) \<Rightarrow> (Inl e, w2)
              | (Inr yt, w2) \<Rightarrow> (home_context yt clean_url, w2)))"

text \<open>
  The \<open>except\<close> clauses of \<open>home\<close>, in the order they are written: the first one that
  fits the class of the exception gives the message of the page.
\<close>

definition home_except :: "pystr \<Rightarrow> exn \<Rightarrow> world \<Rightarrow> page_context \<times> world" where
  "home_except url e w =
     (if is_PytubeError (exn_cls e) then ([(''error'', CStr (exn_msg e))], w)
      else if exn_cls e = AgeRestrictedError then
        ([(''error'', CStr (str ''Age-restricted video. Please login to YouTube.''))], w)
      else if exn_cls e = RegexMatchError then
        ([(''error'', CStr (str ''Invalid YouTube URL format''))], w)
      else
        ([(''error'', CStr (str ''Failed to fetch video information''))],
         emit (Ev_log_error (str ''Error processing URL '' @ url @ str '': '' @ exn_msg e)) w))"

definition home :: "env \<Rightarrow> request \<Rightarrow> world \<Rightarrow> response \<times> world" where
  "home E req w =
     (if req_method req = str ''POST'' then
        (let url = strip (POST_get req ''url'' [])
         in if url = [] then
              (Render ''home.html'' [(''error'', CStr (str ''Please enter a YouTube URL''))], w)
            else
              (case home_try E url w of
                 (Inr ctx, w') \<Rightarrow> (Render ''home.html'' ctx, w')
               | (Inl e, w') \<Rightarrow>
                   (case home_except url e w' of (ctx, w'') \<Rightarrow> (Render ''home.html'' ctx, w''))))
      else (Render ''home.html'' [], w))"

section \<open>The download handler: \<open>download_video\<close>\<close>

text \<open>The three branches on \<open>quality\<close>; \<open>None\<close> is the \<open>None\<close> of the library.\<close>

definition select_stream :: "handle \<Rightarrow> pystr \<Rightarrow> exn + stream option" where
  "select_stream yt quality =
     (if quality = str ''highest'' then bind (yt_streams yt) (\<lambda>ss. Inr (get_highest_resolution ss))
      else if quality = str ''lowest'' then bind (yt_streams yt) (\<lambda>ss. Inr (get_lowest_resolution ss))
      else bind (yt_streams yt) (\<lambda>ss. Inr (get_by_resolution quality ss)))"

text \<open>The selection followed by \<open>if not stream: raise PytubeError(...)\<close>.\<close>

definition pick_stream :: "handle \<Rightarrow> pystr \<Rightarrow> exn + stream" where
  "pick_stream yt quality =
     bind (select_stream yt quality) (\<lambda>sel.
       case sel of
         None \<Rightarrow> Inl (Exn PytubeError (str ''No suitable stream found''))
       | Some stream \<Rightarrow> Inr stream)"

text \<open>
  The file name: the characters of the title that are alphanumeric or one of space,
  hyphen and underscore, joined, stripped on the right, then \<open>_\<close>, the identifier and
  \<open>.mp4\<close>.
\<close>

definition safe_title :: "(nat \<Rightarrow> bool) \<Rightarrow> pystr \<Rightarrow> pystr" where
  "safe_title uni title =
     rstrip (concat (map (\<lambda>c.
       if isalnum uni c \<or> c \<in> set [ord CHR '' '', ord CHR ''-'', ord CHR ''_''] then [c] else [])
       title))"

definition make_filename :: "(nat \<Rightarrow> bool) \<Rightarrow> pystr \<Rightarrow> pystr \<Rightarrow> pystr" where
  "make_filename uni title video_id = safe_title uni title @ str ''_'' @ video_id @ str ''.mp4''"

text \<open>The double quote, code point 34, which brackets the file name in the header.\<close>

definition dquote :: pystr where
  "dquote = [34]"

definition download_try :: "env \<Rightarrow> pystr \<Rightarrow> pystr \<Rightarrow> world \<Rightarrow> (exn + response) \<times> world" where
  "download_try E url quality w =
     (let w1 = emit (Ev_sanitize url) w
      in case sanitize_youtube_url url of
           Inl e \<Rightarrow> (Inl e, w1)
         | Inr clean_url \<Rightarrow>
             (case get_yt_object E clean_url 3 w1 of
                (Inl e, w2) \<Rightarrow> (Inl e, w2)
              | (Inr yt, w2) \<Rightarrow>
                  (case pick_stream yt quality of
                     Inl e \<Rightarrow> (Inl e, w2)
                   | Inr stream \<Rightarrow>
                       (let w3 = emit Ev_makedirs w2
                        in case makedirs E of
                             Some e \<Rightarrow> (Inl e, w3)
                           | None \<Rightarrow>
                               (case yt_title yt of
                                  Inl e \<Rightarrow> (Inl e, w3)
                                | Inr title \<Rightarrow>
                                    (let filename =
                                           make_filename (unicode_alnum E) title (yt_video_id yt);
                                         w4 = emit (Ev_download stream filename) w3
                                     in case retrieve E stream filename (files w4) of
                                          (Some e, fs) \<Rightarrow> (Inl e, w4\<lparr>files := fs\<rparr>)
                                        | (None, fs) \<Rightarrow>
                                            (case fs filename of
                                               Some content \<Rightarrow>
                                                 (Inr (HttpResponse content (str ''video/mp4'')
                                                    (str ''attachment; filename='' @ dquote @
                                                     filename @ dquote)),
                                                  emit (Ev_read filename) (w4\<lparr>files := fs\<rparr>))
                                             | None \<Rightarrow>
                                                 (Inl (Exn FileNotFoundError
                                                    (str ''Downloaded file not found'')),
                                                  w4\<lparr>files := fs\<rparr>))))))))"

definition download_except :: "pystr \<Rightarrow> exn \<Rightarrow> world \<Rightarrow> response \<times> world" where
  "download_except url e w =
     (if is_PytubeError (exn_cls e) then
        (Render ''home.html'' [(''error'', CStr (exn_msg e)), (''url'', CStr url)], w)
      else
        (Render ''home.html''
           [(''error'', CStr (str ''Download failed. Please try again later.'')),
            (''url'', CStr url)],
         emit (Ev_log_error (str ''Download failed for '' @ url @ str '': '' @ exn_msg e)) w))"

definition download_video :: "env \<Rightarrow> request \<Rightarrow> world \<Rightarrow> response \<times> world" where
  "download_video E req w =
     (if req_method req = str ''POST'' then
        (let url = strip (POST_get req ''url'' []);
             quality = POST_get req ''quality'' (str ''highest'')
         in if url = [] then (HttpResponseBadRequest (str ''No URL provided''), w)
            else
              (case download_try E url quality w of
                 (Inr resp, w') \<Rightarrow> (resp, w')
               | (Inl e, w') \<Rightarrow> download_except url e w'))
      else (Redirect ''home'', w))"

section \<open>Notions of the specification\<close>

text \<open>
  A valid video identifier: 11 characters of the class of the patterns. The accepted URL
  shapes: one of the four texts that come before the identifier, after an optional scheme
  and an optional host prefix.
\<close>

definition valid_id :: "pystr \<Rightarrow> bool" where
  "valid_id vid = (length vid = 11 \<and> list_all (in_class id_class) vid)"

definition schemes :: "string list" where
  "schemes = [[], ''http://'', ''https://'']"

definition host_prefixes :: "string list" where
  "host_prefixes = [[], ''www.'', ''m.'']"

definition shapes :: "string list" where
  "shapes = [''youtu.be/'', ''youtube.com/watch?v='', ''youtube.com/embed/'', ''youtube.com/v/'']"

definition canonical_url :: "pystr \<Rightarrow> pystr" where
  "canonical_url vid = str ''https://www.youtube.com/watch?v='' @ vid"

text \<open>
  A pattern gives no usable identifier on a URL when it matches nowhere, or when the token
  it captures is not 11 characters long.
\<close>

definition no_usable_match :: "pystr \<Rightarrow> regex \<Rightarrow> bool" where
  "no_usable_match url p =
     (case re_search p url of
        None \<Rightarrow> True
      | Some m \<Rightarrow> (case group1 m of None \<Rightarrow> False | Some g \<Rightarrow> length g \<noteq> 11))"

text \<open>The errors of the specification that the claims name.\<close>

definition InvalidURLFormat :: exn where
  "InvalidURLFormat = Exn RegexMatchError (str ''Invalid YouTube URL format'')"

definition ExtractionFailed :: exn where
  "ExtractionFailed =
     Exn PytubeError
       (str ''Could not initialize YouTube object. Check your network or try another video.'')"

definition NoSuitableStream :: exn where
  "NoSuitableStream = Exn PytubeError (str ''No suitable stream found'')"

text \<open>
  A character that every match of a pattern has to read: used to see that a pattern
  matches nowhere in a text without that character.
\<close>

fun needs :: "nat \<Rightarrow> regex \<Rightarrow> bool" where
  "needs c (Lit l) = (c \<in> set l)"
| "needs c (Cls rs) = False"
| "needs c (Seq a b) = (needs c a \<or> needs c b)"
| "needs c (Alt a b) = (needs c a \<and> needs c b)"
| "needs c (Opt a) = False"
| "needs c (Rep n a) = False"
| "needs c (Grp a) = needs c a"

text \<open>
  The file name in the words of the specification: remove from the title every character
  that is not alphanumeric, space, hyphen or underscore, trim the trailing white space,
  append \<open>_<VideoIdentifier>.mp4\<close>.
\<close>

definition allowed_char :: "(nat \<Rightarrow> bool) \<Rightarrow> nat \<Rightarrow> bool" where
  "allowed_char uni c =
     (isalnum uni c \<or> c = ord CHR '' '' \<or> c = ord CHR ''-'' \<or> c = ord CHR ''_'')"

fun trim_trailing :: "pystr \<Rightarrow> pystr" where
  "trim_trailing [] = []"
| "trim_trailing (c # s) =
     (case trim_trailing s of [] \<Rightarrow> (if isspace c then [] else [c]) | d # t \<Rightarrow> c # d # t)"

definition spec_filename :: "(nat \<Rightarrow> bool) \<Rightarrow> pystr \<Rightarrow> pystr \<Rightarrow> pystr" where
  "spec_filename uni title vid =
     trim_trailing (filter (allowed_char uni) title) @ str ''_'' @ vid @ str ''.mp4''"

text \<open>
  What the end of the normalizer's loop raises: the \<open>TypeError\<close> of the constructor
  call with one argument.
\<close>

definition missing_pattern_argument :: exn where
  "missing_pattern_argument =
     Exn TypeError
       (str ''RegexMatchError.__init__() missing 1 required positional argument: '' @
        squote @ str ''pattern'' @ squote)"

text \<open>The record that the fetcher logs for a failed attempt.\<close>

definition attempt_failed :: "int \<Rightarrow> exn \<Rightarrow> event" where
  "attempt_failed n e =
     Ev_log_warning (str ''Attempt '' @ str_int n @ str '' failed: '' @ exn_msg e)"

text \<open>The streams that a run retrieved, in order.\<close>

fun download_of :: "event \<Rightarrow> stream list" where
  "download_of (Ev_download s name) = [s]"
| "download_of _ = []"

definition downloads :: "world \<Rightarrow> stream list" where
  "downloads w = concat (map download_of (trace w))"

text \<open>The total of the waits of a run, and the number of normalizer calls in a trace.\<close>

definition total_wait :: "world \<Rightarrow> int" where
  "total_wait w = sum_list (sleeps w)"

definition sanitize_calls :: "world \<Rightarrow> nat" where
  "sanitize_calls w = length (filter is_sanitize (trace w))"

text \<open>
  Two runs that differ only in the text of exceptions of no recognized class: an
  exception is recognized when its class is \<open>PytubeError\<close> or derives from it, the
  classes that the handlers show the message of. Two exceptions are alike when they are
  equal, or are both unrecognized, of one class, with any texts; outcomes, handles and
  collaborators are alike when they are equal up to such exceptions.
\<close>

definition unrecognized :: "exn \<Rightarrow> bool" where
  "unrecognized e = (\<not> is_PytubeError (exn_cls e))"

definition exn_sim :: "exn \<Rightarrow> exn \<Rightarrow> bool" where
  "exn_sim e1 e2 = (e1 = e2 \<or> (unrecognized e1 \<and> unrecognized e2 \<and> exn_cls e1 = exn_cls e2))"

fun sum_sim :: "exn + 'a \<Rightarrow> exn + 'a \<Rightarrow> bool" where
  "sum_sim (Inl e1) (Inl e2) = exn_sim e1 e2"
| "sum_sim (Inr a) (Inr b) = (a = b)"
| "sum_sim (Inl e1) (Inr b) = False"
| "sum_sim (Inr a) (Inl e2) = False"

fun opt_sim :: "exn option \<Rightarrow> exn option \<Rightarrow> bool" where
  "opt_sim None None = True"
| "opt_sim (Some e1) (Some e2) = exn_sim e1 e2"
| "opt_sim None (Some e2) = False"
| "opt_sim (Some e1) None = False"

definition handle_sim :: "handle \<Rightarrow> handle \<Rightarrow> bool" where
  "handle_sim h1 h2 =
     (sum_sim (yt_streams h1) (yt_streams h2) \<and> sum_sim (yt_title h1) (yt_title h2) \<and>
      sum_sim (yt_length h1) (yt_length h2) \<and> sum_sim (yt_views h1) (yt_views h2) \<and>
      sum_sim (yt_author h1) (yt_author h2) \<and>
      sum_sim (yt_thumbnail_url h1) (yt_thumbnail_url h2) \<and>
      yt_video_id h1 = yt_video_id h2)"

fun fetch_sim :: "exn + handle \<Rightarrow> exn + handle \<Rightarrow> bool" where
  "fetch_sim (Inl e1) (Inl e2) = exn_sim e1 e2"
| "fetch_sim (Inr h1) (Inr h2) = handle_sim h1 h2"
| "fetch_sim (Inl e1) (Inr h2) = False"
| "fetch_sim (Inr h1) (Inl e2) = False"

definition env_sim :: "env \<Rightarrow> env \<Rightarrow> bool" where
  "env_sim E1 E2 =
     ((\<forall>k url. fetch_sim (remote E1 k url) (remote E2 k url)) \<and>
      opt_sim (makedirs E1) (makedirs E2) \<and>
      (\<forall>s name fs. opt_sim (fst (retrieve E1 s name fs)) (fst (retrieve E2 s name fs)) \<and>
                   snd (retrieve E1 s name fs) = snd (retrieve E2 s name fs)) \<and>
      unicode_alnum E1 = unicode_alnum E2)"

section \<open>Example data\<close>

definition s360 :: stream where
  "s360 = \<lparr>itag = 18, resolution = str ''360p'', progressive = True, file_extension = str ''mp4''\<rparr>"

definition s480 :: stream where
  "s480 = \<lparr>itag = 135, resolution = str ''480p'', progressive = True, file_extension = str ''mp4''\<rparr>"

definition s720 :: stream where
  "s720 = \<lparr>itag = 22, resolution = str ''720p'', progressive = True, file_extension = str ''mp4''\<rparr>"

definition ex_handle :: handle where
  "ex_handle =
     \<lparr>yt_streams = Inr [s360, s480, s720],
      yt_title = Inr (str ''My Video! @#$%''),
      yt_length = Inr 3661,
      yt_views = Inr 1234567,
      yt_author = Inr (str ''Someone''),
      yt_thumbnail_url = Inr (str ''https://i.ytimg.com/vi/abc12345678/hq.jpg''),
      yt_video_id = str ''abc12345678''\<rparr>"

definition timed_out :: exn where
  "timed_out = Exn (OtherException ''URLError'') (str ''timed out'')"

text \<open>A service that answers, one that never does, and one that fails twice first.\<close>

definition good_env :: env where
  "good_env =
     \<lparr>remote = (\<lambda>k url. Inr ex_handle),
      makedirs = None,
      retrieve = (\<lambda>s name fs. (None, fs(name \<mapsto> [1, 2, 3]))),
      unicode_alnum = (\<lambda>c. False)\<rparr>"

definition failing_env :: env where
  "failing_env = good_env\<lparr>remote := (\<lambda>k url. Inl timed_out)\<rparr>"

definition flaky_env :: env where
  "flaky_env = good_env\<lparr>remote := (\<lambda>k url. if k < 2 then Inl timed_out else Inr ex_handle)\<rparr>"

text \<open>A service whose handle raises an exception of no recognized class, with a given text.\<close>

definition broken_env :: "pystr \<Rightarrow> env" where
  "broken_env text =
     good_env\<lparr>remote :=
       (\<lambda>k url. Inr (ex_handle\<lparr>yt_title := Inl (Exn (OtherException ''KeyError'') text)\<rparr>))\<rparr>"

definition w0 :: world where
  "w0 = \<lparr>trace = [], files = (\<lambda>name. None)\<rparr>"

definition post :: "(string \<Rightarrow> pystr option) \<Rightarrow> request" where
  "post form = \<lparr>req_method = str ''POST'', req_POST = form\<rparr>"

section \<open>White space and the empty-input check\<close>

lemma strip_all_space: "list_all isspace s \<Longrightarrow> strip s = []"
proof -
  assume "list_all isspace s"
  then have a: "lstrip s = []"
    unfolding lstrip_def by (simp add: list_all_iff)
  show ?thesis
    unfolding strip_def a by (simp add: rstrip_def)
qed

lemma strip_Nil: "strip [] = []"
  by (simp add: strip_all_space)

text \<open>
  C6. A submission to the download endpoint whose \<open>url\<close> field is empty (or absent, which
  \<open>get\<close> turns into the empty string) gets the bad-request response, of status 400, and
  the run leaves the world as it was: no construction of a handle, hence no network call,
  took place.
\<close>

theorem download_empty_url_bad_request:
  "req_method req = str ''POST'' \<Longrightarrow> POST_get req ''url'' [] = [] \<Longrightarrow>
   fst (download_video E req w) = HttpResponseBadRequest (str ''No URL provided'') \<and>
   status_code (fst (download_video E req w)) = 400 \<and>
   snd (download_video E req w) = w \<and>
   constructions (snd (download_video E req w)) = constructions w"
  by (simp add: download_video_def strip_Nil)

theorem download_empty_url_bad_request_witness:
  "req_method (post (Map.empty(''url'' \<mapsto> []))) = str ''POST'' \<and>
   POST_get (post (Map.empty(''url'' \<mapsto> []))) ''url'' [] = [] \<and>
   status_code (fst (download_video good_env (post (Map.empty(''url'' \<mapsto> []))) w0)) = 400 \<and>
   constructions (snd (download_video good_env (post (Map.empty(''url'' \<mapsto> []))) w0)) = 0"
  using download_empty_url_bad_request [of "post (Map.empty(''url'' \<mapsto> []))" good_env w0]
  by (simp add: post_def POST_get_def constructions_def w0_def)

lemma rstrip_idem: "rstrip (rstrip s) = rstrip s"
  by (simp add: rstrip_def)

lemma rstrip_prefix: "\<exists>x. s = rstrip s @ x"
proof -
  have "rev (takeWhile isspace (rev s) @ dropWhile isspace (rev s)) = s"
    by (simp only: takeWhile_dropWhile_id rev_rev_ident)
  then have "s = rstrip s @ rev (takeWhile isspace (rev s))"
    by (simp only: rstrip_def rev_append)
  then show ?thesis ..
qed

lemma lstrip_fixed: "s = [] \<or> \<not> isspace (hd s) \<Longrightarrow> lstrip s = s"
  by (cases s) (auto simp: lstrip_def)

lemma lstrip_head: "lstrip s = [] \<or> \<not> isspace (hd (lstrip s))"
  unfolding lstrip_def using hd_dropWhile by blast

lemma strip_idem: "strip (strip s) = strip s"
proof -
  let ?t = "lstrip s"
  obtain x where x: "?t = rstrip ?t @ x" using rstrip_prefix by blast
  have "rstrip ?t = [] \<or> \<not> isspace (hd (rstrip ?t))"
  proof (cases "rstrip ?t")
    case (Cons c r)
    with x have "hd ?t = c" "?t \<noteq> []" by (metis append_Cons list.sel(1), metis append_Cons list.distinct(1))
    with lstrip_head[of s] Cons show ?thesis by auto
  qed simp
  then have "lstrip (rstrip ?t) = rstrip ?t" by (rule lstrip_fixed)
  then show ?thesis by (simp add: strip_def rstrip_idem)
qed

text \<open>
  C10. Both handlers strip the \<open>url\<close> field before they test it for emptiness: a
  submission runs as the one with the stripped \<open>url\<close> does, and one whose \<open>url\<close> is
  white space only is answered as an empty one (the form with its message on the info
  endpoint, the bad-request response on the download endpoint) with the world left as
  it was, so neither the normalizer nor the fetcher ran.
\<close>

theorem whitespace_url_rejected:
  "req_method req = str ''POST'' \<Longrightarrow> req_POST req ''url'' = Some u \<Longrightarrow>
   home E req w = home E (req\<lparr>req_POST := (req_POST req)(''url'' \<mapsto> strip u)\<rparr>) w \<and>
   download_video E req w =
     download_video E (req\<lparr>req_POST := (req_POST req)(''url'' \<mapsto> strip u)\<rparr>) w \<and>
   (list_all isspace u \<longrightarrow>
      home E req w =
        (Render ''home.html'' [(''error'', CStr (str ''Please enter a YouTube URL''))], w) \<and>
      download_video E req w = (HttpResponseBadRequest (str ''No URL provided''), w) \<and>
      sanitize_calls (snd (home E req w)) = sanitize_calls w \<and>
      constructions (snd (home E req w)) = constructions w \<and>
      sanitize_calls (snd (download_video E req w)) = sanitize_calls w \<and>
      constructions (snd (download_video E req w)) = constructions w)"
  by (simp add: home_def download_video_def POST_get_def strip_all_space strip_idem)

theorem whitespace_url_rejected_witness:
  "req_method (post (Map.empty(''url'' \<mapsto> [32, 9, 10, 32]))) = str ''POST'' \<and>
   req_POST (post (Map.empty(''url'' \<mapsto> [32, 9, 10, 32]))) ''url'' = Some [32, 9, 10, 32] \<and>
   list_all isspace [32, 9, 10, 32] \<and>
   fst (home good_env (post (Map.empty(''url'' \<mapsto> [32, 9, 10, 32]))) w0) =
     Render ''home.html'' [(''error'', CStr (str ''Please enter a YouTube URL''))] \<and>
   status_code (fst (download_video good_env (post (Map.empty(''url'' \<mapsto> [32, 9, 10, 32]))) w0)) = 400 \<and>
   constructions (snd (home good_env (post (Map.empty(''url'' \<mapsto> [32, 9, 10, 32]))) w0)) = 0"
proof -
  let ?req = "post (Map.empty(''url'' \<mapsto> [32, 9, 10, 32]))"
  have p: "req_method ?req = str ''POST''" "req_POST ?req ''url'' = Some [32, 9, 10, 32]"
    by (simp_all add: post_def)
  have sp: "list_all isspace [32, 9, 10, 32]"
    by (simp add: isspace_def)
  from whitespace_url_rejected [OF p, of good_env w0] sp
  have r: "home good_env ?req w0 =
      (Render ''home.html'' [(''error'', CStr (str ''Please enter a YouTube URL''))], w0)"
    "download_video good_env ?req w0 = (HttpResponseBadRequest (str ''No URL provided''), w0)"
    by blast+
  have c: "constructions w0 = 0"
    by (simp add: constructions_def w0_def)
  show ?thesis
    by (simp add: p r c isspace_def)
qed

section \<open>The file name of a download\<close>

lemma trim_trailing_snoc:
  "trim_trailing (s @ [c]) = (if isspace c then trim_trailing s else s @ [c])"
  by (induction s) (auto split: list.splits)

lemma rstrip_trim: "rstrip s = trim_trailing s"
proof (induction s rule: rev_induct)
  case Nil
  then show ?case by (simp add: rstrip_def)
next
  case (snoc c s)
  then show ?case by (simp add: rstrip_def trim_trailing_snoc)
qed

lemma join_filter: "concat (map (\<lambda>c. if P c then [c] else []) s) = filter P s"
  by (induction s) auto

text \<open>
  C5. For every title and identifier the file name of the code is the one of the
  specification (remove the characters that are not alphanumeric, space, hyphen or
  underscore, trim the trailing white space, append \<open>_<id>.mp4\<close>), and the title
  \<open>My Video! @#$%\<close> with the identifier \<open>abc12345678\<close> gives \<open>My Video_abc12345678.mp4\<close>.
\<close>

theorem filename_policy:
  "make_filename uni title vid = spec_filename uni title vid \<and>
   make_filename uni (str ''My Video! @#$%'') (str ''abc12345678'') =
     str ''My Video_abc12345678.mp4''"
proof
  have "(\<lambda>c. if isalnum uni c \<or> c \<in> set [ord CHR '' '', ord CHR ''-'', ord CHR ''_'']
              then [c] else []) =
        (\<lambda>c. if allowed_char uni c then [c] else [])"
    by (auto simp: allowed_char_def)
  then show "make_filename uni title vid = spec_filename uni title vid"
    by (simp add: make_filename_def spec_filename_def safe_title_def rstrip_trim join_filter)
  show "make_filename uni (str ''My Video! @#$%'') (str ''abc12345678'') =
      str ''My Video_abc12345678.mp4''"
    by (simp add: make_filename_def safe_title_def rstrip_def isalnum_def isspace_def
        str_def ord_def)
qed

section \<open>The duration formatter\<close>

lemma format_duration_examples:
  "format_duration 0 = Inr (str ''0:00:00'')"
  "format_duration 3661 = Inr (str ''1:01:01'')"
  by (simp_all add: format_duration_def str_def ord_def str_int_def pad2_def)

text \<open>Below one day the string is hours, minutes and seconds.\<close>

lemma format_duration_below_a_day:
  "0 \<le> n \<Longrightarrow> n < 86400 \<Longrightarrow>
   format_duration n =
     Inr (str_int (n div 3600) @ str '':'' @ pad2 (n div 60 mod 60) @ str '':'' @ pad2 (n mod 60))"
proof -
  assume a: "0 \<le> n" "n < 86400"
  then have d: "n div 86400 = 0" "n mod 86400 = n" by simp_all
  have h: "n div 60 div 60 = n div 3600"
    by (simp add: div_mult2_eq[symmetric])
  show ?thesis
    by (simp add: format_duration_def d h Let_def)
qed

text \<open>
  C8. At 86400 seconds the formatter does not give an hours:minutes:seconds string: the
  count of days comes first, in words.
\<close>

theorem format_duration_one_day:
  "format_duration 86400 = Inr (str ''1 day, 0:00:00'')"
  by (simp add: format_duration_def str_def ord_def str_int_def pad2_def)

section \<open>The URL normalizer\<close>

text \<open>
  Whatever a pattern of the normalizer captures is 11 characters long: a pattern gives
  no usable identifier exactly when it matches nowhere.
\<close>

lemma rmatch_Rep_Cls_length:
  "(g, r) \<in> set (rmatch (Rep n (Cls cs)) s) \<Longrightarrow> length s = n + length r"
proof (induction n arbitrary: s g)
  case 0
  then show ?case by simp
next
  case (Suc n)
  then show ?case
    by (cases s) (auto split: if_splits)
qed

lemma rmatch_rx_id_group:
  "(g, r) \<in> set (rmatch rx_id s) \<Longrightarrow> \<exists>v. g = Some v \<and> length v = 11"
  by (auto simp: rx_id_def dest!: rmatch_Rep_Cls_length)

lemma rmatch_Seq_group:
  assumes "\<And>s g r. (g, r) \<in> set (rmatch b s) \<Longrightarrow> \<exists>v. g = Some v \<and> length v = 11"
    and "(g, r) \<in> set (rmatch (Seq a b) s)"
  shows "\<exists>v. g = Some v \<and> length v = 11"
proof -
  from assms(2) obtain g1 r1 g2 where "(g2, r) \<in> set (rmatch b r1)" "g = keep_group g1 g2"
    by auto
  with assms(1) show ?thesis by (fastforce simp: keep_group_def)
qed

lemma rmatch_url_pattern_group:
  "(g, r) \<in> set (rmatch (url_pattern lit) s) \<Longrightarrow> \<exists>v. g = Some v \<and> length v = 11"
  unfolding url_pattern_def
  by (erule rmatch_Seq_group[rotated], erule rmatch_Seq_group[rotated],
      erule rmatch_Seq_group[rotated], erule rmatch_rx_id_group)

lemma re_search_result:
  "re_search rx s = Some m \<Longrightarrow> \<exists>t r. (group1 m, r) \<in> set (rmatch rx t)"
proof (induction s)
  case Nil
  show ?case
  proof (cases "rmatch rx []")
    case Nil
    with Nil.prems show ?thesis by simp
  next
    case (Cons x xs)
    obtain g r where "x = (g, r)" by (cases x)
    with Cons Nil.prems have "m = Match g" "(g, r) \<in> set (rmatch rx [])" by auto
    then show ?thesis by auto
  qed
next
  case (Cons c s)
  show ?case
  proof (cases "rmatch rx (c # s)")
    case Nil
    with Cons show ?thesis by simp
  next
    case (Cons x xs)
    obtain g r where "x = (g, r)" by (cases x)
    with Cons Cons.prems have "m = Match g" "(g, r) \<in> set (rmatch rx (c # s))" by auto
    then show ?thesis by auto
  qed
qed

lemma captured_token_length:
  "p \<in> set patterns \<Longrightarrow> re_search p url = Some m \<Longrightarrow> \<exists>v. group1 m = Some v \<and> length v = 11"
proof -
  assume "p \<in> set patterns"
  then obtain lit where "p = url_pattern lit" by (auto simp: patterns_def)
  moreover assume "re_search p url = Some m"
  ultimately show ?thesis using re_search_result rmatch_url_pattern_group by blast
qed

lemma no_usable_match_iff:
  "p \<in> set patterns \<Longrightarrow> no_usable_match url p = (re_search p url = None)"
  using captured_token_length[of p url]
  by (cases "re_search p url") (auto simp: no_usable_match_def)

text \<open>
  What is left over by a match is part of the text, and a pattern that has to read a
  character matches nowhere in a text without it.
\<close>

lemma strip_prefix_set: "strip_prefix l s = Some r \<Longrightarrow> set s = set l \<union> set r"
  by (induction l s rule: strip_prefix.induct) (auto split: if_splits)

lemma rmatch_rest_subset: "(g, r) \<in> set (rmatch rx s) \<Longrightarrow> set r \<subseteq> set s"
proof (induction rx s arbitrary: g r rule: rmatch.induct)
  case (1 l s)
  then have "strip_prefix l s = Some r" by (auto split: option.splits)
  then show ?case using strip_prefix_set by blast
next
  case (2 rs s)
  then show ?case by (auto split: list.splits if_splits)
next
  case (3 a b s)
  from 3(3) obtain g1 r1 g2 where a: "(g1, r1) \<in> set (rmatch a s)" and b: "(g2, r) \<in> set (rmatch b r1)"
    by auto
  from 3(1)[OF a] 3(2)[OF a refl b] show ?case by blast
next
  case (4 a b s)
  then show ?case by fastforce
next
  case (5 a s)
  then show ?case by auto
next
  case (6 a s)
  then show ?case by auto
next
  case (7 n a s)
  from 7(3) obtain g1 r1 g2 where a: "(g1, r1) \<in> set (rmatch a s)" and b: "(g2, r) \<in> set (rmatch (Rep n a) r1)"
    by auto
  from 7(1)[OF a] 7(2)[OF a refl b] show ?case by blast
next
  case (8 a s)
  then show ?case by auto
qed

lemma rmatch_needs: "needs c rx \<Longrightarrow> c \<notin> set s \<Longrightarrow> rmatch rx s = []"
proof (induction rx arbitrary: s)
  case (Lit l)
  have "strip_prefix l s = None"
  proof (cases "strip_prefix l s")
    case (Some r)
    then show ?thesis using strip_prefix_set[OF Some] Lit by auto
  qed simp
  then show ?case by simp
next
  case (Seq a b)
  show ?case
  proof (cases "needs c a")
    case True
    then show ?thesis using Seq by simp
  next
    case False
    then have nb: "needs c b" using Seq.prems by simp
    have "rmatch b r = []" if "(g, r) \<in> set (rmatch a s)" for g r
      using Seq.IH(2)[OF nb] rmatch_rest_subset[OF that] Seq.prems(2) by blast
    then show ?thesis by auto
  qed
qed auto

lemma re_search_needs: "needs c rx \<Longrightarrow> c \<notin> set s \<Longrightarrow> re_search rx s = None"
  by (induction s) (simp_all add: rmatch_needs)

lemma rmatch_Rep_Cls:
  "length v = n \<Longrightarrow> list_all (in_class cs) v \<Longrightarrow> rmatch (Rep n (Cls cs)) (v @ rest) = [(None, rest)]"
  by (induction v arbitrary: n) (auto simp: keep_group_def)

lemma rmatch_rx_id: "valid_id vid \<Longrightarrow> rmatch rx_id vid = [(Some vid, [])]"
  using rmatch_Rep_Cls[of vid 11 id_class "[]"] by (simp add: rx_id_def valid_id_def)

lemma valid_id_no_dot: "valid_id vid \<Longrightarrow> 46 \<notin> set vid"
  by (auto simp: valid_id_def id_class_def ord_def list_all_iff)

lemma valid_id_length: "valid_id vid \<Longrightarrow> length vid = 11"
  by (simp add: valid_id_def)

lemmas url_eval =
  sanitize_youtube_url_def patterns_def url_pattern_def rx_scheme_def rx_host_def str_def ord_def
  keep_group_def canonical_url_def

text \<open>
  C1. For every valid identifier, each of the four accepted URL shapes that holds it,
  with or without a scheme and a host prefix, is normalized to the same canonical URL,
  \<open>https://www.youtube.com/watch?v=\<close> followed by the identifier.
\<close>

theorem sanitize_accepted_shapes:
  assumes "valid_id vid" "sc \<in> set schemes" "h \<in> set host_prefixes" "lit \<in> set shapes"
  shows "sanitize_youtube_url (str (sc @ h @ lit) @ vid) = Inr (canonical_url vid)"
proof -
  note v = rmatch_rx_id[OF assms(1)] valid_id_no_dot[OF assms(1)] valid_id_length[OF assms(1)]
  from assms(2) have sc: "sc = [] \<or> sc = ''http://'' \<or> sc = ''https://''"
    by (simp add: schemes_def)
  from assms(3) have h: "h = [] \<or> h = ''www.'' \<or> h = ''m.''"
    by (simp add: host_prefixes_def)
  from assms(4) have lit: "lit = ''youtu.be/'' \<or> lit = ''youtube.com/watch?v='' \<or>
      lit = ''youtube.com/embed/'' \<or> lit = ''youtube.com/v/''"
    by (simp add: shapes_def)
  from sc h lit show ?thesis
    by (elim disjE; simp add: url_eval v re_search_needs[of 46])
qed

theorem sanitize_accepted_shapes_witness:
  "valid_id (str ''dQw4w9WgXcQ'') \<and> ''https://'' \<in> set schemes \<and>
   ''www.'' \<in> set host_prefixes \<and> ''youtube.com/embed/'' \<in> set shapes \<and>
   sanitize_youtube_url (str ''https://www.youtube.com/embed/dQw4w9WgXcQ'') =
     Inr (str ''https://www.youtube.com/watch?v=dQw4w9WgXcQ'')"
  using sanitize_accepted_shapes
    [of "str ''dQw4w9WgXcQ''" "''https://''" "''www.''" "''youtube.com/embed/''"]
  by (simp add: valid_id_def id_class_def schemes_def host_prefixes_def shapes_def
      canonical_url_def str_def ord_def)

text \<open>
  The end of the normalizer's loop: when no pattern gives a usable identifier the
  constructor call fails, and the normalizer raises \<open>TypeError\<close>; whatever the input,
  it never fails with the format error.
\<close>

lemma try_patterns_end:
  "list_all (no_usable_match url) ps \<Longrightarrow> try_patterns ps url = Inl missing_pattern_argument"
  by (induction ps)
    (auto simp: no_usable_match_def missing_pattern_argument_def raise_new_def split: option.splits)

lemma try_patterns_never_format_error: "try_patterns ps url \<noteq> Inl InvalidURLFormat"
  by (induction ps)
    (auto simp: InvalidURLFormat_def raise_new_def split: option.splits)

lemma sanitize_no_match:
  "list_all (no_usable_match url) patterns \<Longrightarrow> sanitize_youtube_url url = Inl missing_pattern_argument"
  by (simp add: sanitize_youtube_url_def try_patterns_end)

lemma no_match_example: "list_all (no_usable_match (str ''not a url'')) patterns"
  by (simp add: no_usable_match_def patterns_def url_pattern_def rx_scheme_def rx_host_def
      str_def ord_def)

lemma strip_not_a_url: "strip (str ''not a url'') = str ''not a url''" "str ''not a url'' \<noteq> []"
  by (simp_all add: strip_def lstrip_def rstrip_def isspace_def str_def ord_def)

text \<open>A token longer than 11 characters is not rejected: its first 11 are taken.\<close>

lemma sanitize_long_token_cut:
  "sanitize_youtube_url (str ''https://youtu.be/abc12345678XYZ'') =
     Inr (str ''https://www.youtube.com/watch?v=abc12345678'')"
proof -
  have "rmatch (Rep 11 (Cls id_class)) (str ''abc12345678'' @ str ''XYZ'') = [(None, str ''XYZ'')]"
    by (rule rmatch_Rep_Cls) (simp_all add: id_class_def str_def ord_def)
  then have "rmatch rx_id (str ''abc12345678XYZ'') = [(Some (str ''abc12345678''), str ''XYZ'')]"
    by (simp add: rx_id_def str_def)
  then show ?thesis
    by (simp add: sanitize_youtube_url_def patterns_def url_pattern_def rx_scheme_def rx_host_def
        str_def ord_def keep_group_def)
qed

text \<open>
  C2. On an input that no pattern matches, such as \<open>not a url\<close>, the normalizer does
  not fail with the format error: the constructor call at the end of its loop raises
  \<open>TypeError\<close>, on no input does the normalizer fail with the format error, and both
  handlers answer with their message for exceptions of no recognized class.
\<close>

theorem sanitize_raises_type_error:
  "sanitize_youtube_url (str ''not a url'') = Inl missing_pattern_argument \<and>
   sanitize_youtube_url url \<noteq> Inl InvalidURLFormat \<and>
   fst (home E (post (Map.empty(''url'' \<mapsto> str ''not a url''))) w) =
     Render ''home.html'' [(''error'', CStr (str ''Failed to fetch video information''))] \<and>
   fst (download_video E (post (Map.empty(''url'' \<mapsto> str ''not a url''))) w) =
     Render ''home.html''
       [(''error'', CStr (str ''Download failed. Please try again later.'')),
        (''url'', CStr (str ''not a url''))]"
proof (intro conjI)
  show s: "sanitize_youtube_url (str ''not a url'') = Inl missing_pattern_argument"
    by (rule sanitize_no_match[OF no_match_example])
  show "sanitize_youtube_url url \<noteq> Inl InvalidURLFormat"
    by (simp add: sanitize_youtube_url_def try_patterns_never_format_error)
  show "fst (home E (post (Map.empty(''url'' \<mapsto> str ''not a url''))) w) =
      Render ''home.html'' [(''error'', CStr (str ''Failed to fetch video information''))]"
    by (simp add: home_def post_def POST_get_def strip_not_a_url home_try_def s
        home_except_def missing_pattern_argument_def Let_def)
  show "fst (download_video E (post (Map.empty(''url'' \<mapsto> str ''not a url''))) w) =
      Render ''home.html''
        [(''error'', CStr (str ''Download failed. Please try again later.'')),
         (''url'', CStr (str ''not a url''))]"
    by (simp add: download_video_def post_def POST_get_def strip_not_a_url download_try_def s
        download_except_def missing_pattern_argument_def Let_def)
qed

section \<open>The metadata fetcher\<close>

lemma constructions_emit:
  "constructions (emit ev w) = (if is_construct ev then Suc (constructions w) else constructions w)"
  by (simp add: constructions_def emit_def)

lemma sleeps_emit: "sleeps (emit ev w) = sleeps w @ sleep_of ev"
  by (simp add: sleeps_def emit_def)

lemma get_yt_loop_end:
  "\<not> attempt < max_retries \<Longrightarrow> get_yt_loop E url max_retries attempt w = (Inl ExtractionFailed, w)"
  by (simp add: ExtractionFailed_def)

lemma get_yt_loop_success:
  "attempt < max_retries \<Longrightarrow> remote E (constructions w) url = Inr yt \<Longrightarrow>
   get_yt_loop E url max_retries attempt w = (Inr yt, emit (Ev_construct url) w)"
  by simp

lemma get_yt_loop_retry:
  "attempt < max_retries \<Longrightarrow> remote E (constructions w) url = Inl e \<Longrightarrow>
   get_yt_loop E url max_retries attempt w =
     get_yt_loop E url max_retries (attempt + 1)
       ((if attempt < max_retries - 1 then emit (Ev_sleep (2 ^ nat attempt)) else id)
          (emit (Ev_log_warning (str ''Attempt '' @ str_int (attempt + 1) @ str '' failed: '' @ exn_msg e))
             (emit (Ev_construct url) w)))"
  by (subst get_yt_loop.simps) (simp add: Let_def)

text \<open>
  A call of the fetcher with a positive bound is seen in the trace: it constructs a
  handle at least once.
\<close>

lemma loop_constructions_mono:
  "constructions w \<le> constructions (snd (get_yt_loop E url m a w))"
proof (induction "nat (m - a)" arbitrary: a w)
  case 0
  then have "\<not> a < m" by simp
  then show ?case by (simp add: get_yt_loop_end del: get_yt_loop.simps)
next
  case (Suc n)
  then have lt: "a < m" by simp
  show ?case
  proof (cases "remote E (constructions w) url")
    case (Inr yt)
    then show ?thesis
      by (simp add: get_yt_loop_success[OF lt Inr] constructions_emit del: get_yt_loop.simps)
  next
    case (Inl e)
    have n: "n = nat (m - (a + 1))" using Suc.hyps(2) by simp
    let ?w = "(if a < m - 1 then emit (Ev_sleep (2 ^ nat a)) else id)
          (emit (Ev_log_warning (str ''Attempt '' @ str_int (a + 1) @ str '' failed: '' @ exn_msg e))
             (emit (Ev_construct url) w))"
    have "constructions w \<le> constructions ?w"
      by (simp add: constructions_emit)
    also have "\<dots> \<le> constructions (snd (get_yt_loop E url m (a + 1) ?w))"
      by (rule Suc.hyps(1)[OF n])
    finally show ?thesis
      unfolding get_yt_loop_retry[OF lt Inl] .
  qed
qed

lemma fetcher_call_is_traced:
  assumes "0 < m"
  shows "constructions w < constructions (snd (get_yt_object E url m w))"
proof (cases "remote E (constructions w) url")
  case (Inr yt)
  then show ?thesis
    unfolding get_yt_object_def
    by (simp add: get_yt_loop_success[OF assms Inr] constructions_emit del: get_yt_loop.simps)
next
  case (Inl e)
  let ?w = "(if 0 < m - 1 then emit (Ev_sleep (2 ^ nat 0)) else id)
        (emit (Ev_log_warning (str ''Attempt '' @ str_int (0 + 1) @ str '' failed: '' @ exn_msg e))
           (emit (Ev_construct url) w))"
  have "constructions w < constructions ?w"
    by (simp add: constructions_emit)
  also have "\<dots> \<le> constructions (snd (get_yt_loop E url m (0 + 1) ?w))"
    by (rule loop_constructions_mono)
  finally show ?thesis
    unfolding get_yt_object_def get_yt_loop_retry[OF assms Inl] .
qed

lemma trace_emit: "trace (emit ev w) = trace w @ [ev]"
  by (simp add: emit_def)

text \<open>
  C3, as amended. With the default of 3 retries, a service that fails on every attempt
  is tried exactly 3 times, with a wait of 1 time unit after the first attempt and of 2
  after the second (none after the last, and none before the first), and the fetcher
  fails with the "could not initialize" error; a service that fails twice and then
  answers gives its handle after exactly 3 attempts, with the same two waits between
  them, a total wait of 1 + 2 time units. The trace of the run gives the order.
\<close>

theorem fetcher_retry_schedule:
  "(isl (remote E (constructions w) url) \<and> isl (remote E (constructions w + 1) url) \<and>
    isl (remote E (constructions w + 2) url) \<longrightarrow>
      fst (get_yt_object E url 3 w) = Inl ExtractionFailed \<and>
      constructions (snd (get_yt_object E url 3 w)) = constructions w + 3 \<and>
      sleeps (snd (get_yt_object E url 3 w)) = sleeps w @ [1, 2] \<and>
      trace (snd (get_yt_object E url 3 w)) =
        trace w @
        [Ev_construct url, attempt_failed 1 (projl (remote E (constructions w) url)), Ev_sleep 1,
         Ev_construct url, attempt_failed 2 (projl (remote E (constructions w + 1) url)), Ev_sleep 2,
         Ev_construct url, attempt_failed 3 (projl (remote E (constructions w + 2) url))]) \<and>
   (isl (remote E (constructions w) url) \<and> isl (remote E (constructions w + 1) url) \<and>
    remote E (constructions w + 2) url = Inr yt \<longrightarrow>
      fst (get_yt_object E url 3 w) = Inr yt \<and>
      constructions (snd (get_yt_object E url 3 w)) = constructions w + 3 \<and>
      sleeps (snd (get_yt_object E url 3 w)) = sleeps w @ [1, 2] \<and>
      total_wait (snd (get_yt_object E url 3 w)) = total_wait w + (1 + 2) \<and>
      trace (snd (get_yt_object E url 3 w)) =
        trace w @
        [Ev_construct url, attempt_failed 1 (projl (remote E (constructions w) url)), Ev_sleep 1,
         Ev_construct url, attempt_failed 2 (projl (remote E (constructions w + 1) url)), Ev_sleep 2,
         Ev_construct url])"
proof (intro conjI impI)
  assume a: "isl (remote E (constructions w) url) \<and> isl (remote E (constructions w + 1) url) \<and>
    isl (remote E (constructions w + 2) url)"
  then obtain e0 e1 e2 where e: "remote E (constructions w) url = Inl e0"
    "remote E (Suc (constructions w)) url = Inl e1" "remote E (Suc (Suc (constructions w))) url = Inl e2"
    by (auto simp: isl_def)
  have r: "get_yt_object E url 3 w =
     (Inl ExtractionFailed,
      emit (Ev_log_warning (str ''Attempt '' @ str_int 3 @ str '' failed: '' @ exn_msg e2))
        (emit (Ev_construct url)
          (emit (Ev_sleep 2)
            (emit (Ev_log_warning (str ''Attempt '' @ str_int 2 @ str '' failed: '' @ exn_msg e1))
              (emit (Ev_construct url)
                (emit (Ev_sleep 1)
                  (emit (Ev_log_warning (str ''Attempt '' @ str_int 1 @ str '' failed: '' @ exn_msg e0))
                    (emit (Ev_construct url) w))))))))"
    unfolding get_yt_object_def
    by (simp add: get_yt_loop_retry get_yt_loop_end e constructions_emit del: get_yt_loop.simps)
  show "fst (get_yt_object E url 3 w) = Inl ExtractionFailed"
    "constructions (snd (get_yt_object E url 3 w)) = constructions w + 3"
    "sleeps (snd (get_yt_object E url 3 w)) = sleeps w @ [1, 2]"
    by (simp_all add: r constructions_emit sleeps_emit)
  show "trace (snd (get_yt_object E url 3 w)) =
        trace w @
        [Ev_construct url, attempt_failed 1 (projl (remote E (constructions w) url)), Ev_sleep 1,
         Ev_construct url, attempt_failed 2 (projl (remote E (constructions w + 1) url)), Ev_sleep 2,
         Ev_construct url, attempt_failed 3 (projl (remote E (constructions w + 2) url))]"
    by (simp add: r trace_emit e attempt_failed_def)
next
  assume a: "isl (remote E (constructions w) url) \<and> isl (remote E (constructions w + 1) url) \<and>
    remote E (constructions w + 2) url = Inr yt"
  then obtain e0 e1 where e: "remote E (constructions w) url = Inl e0"
    "remote E (Suc (constructions w)) url = Inl e1" "remote E (Suc (Suc (constructions w))) url = Inr yt"
    by (auto simp: isl_def)
  have r: "get_yt_object E url 3 w =
     (Inr yt,
        (emit (Ev_construct url)
          (emit (Ev_sleep 2)
            (emit (Ev_log_warning (str ''Attempt '' @ str_int 2 @ str '' failed: '' @ exn_msg e1))
              (emit (Ev_construct url)
                (emit (Ev_sleep 1)
                  (emit (Ev_log_warning (str ''Attempt '' @ str_int 1 @ str '' failed: '' @ exn_msg e0))
                    (emit (Ev_construct url) w))))))))"
    unfolding get_yt_object_def
    by (simp add: get_yt_loop_retry get_yt_loop_success e constructions_emit del: get_yt_loop.simps)
  show "fst (get_yt_object E url 3 w) = Inr yt"
    "constructions (snd (get_yt_object E url 3 w)) = constructions w + 3"
    "sleeps (snd (get_yt_object E url 3 w)) = sleeps w @ [1, 2]"
    "total_wait (snd (get_yt_object E url 3 w)) = total_wait w + (1 + 2)"
    by (simp_all add: r constructions_emit sleeps_emit total_wait_def)
  show "trace (snd (get_yt_object E url 3 w)) =
        trace w @
        [Ev_construct url, attempt_failed 1 (projl (remote E (constructions w) url)), Ev_sleep 1,
         Ev_construct url, attempt_failed 2 (projl (remote E (constructions w + 1) url)), Ev_sleep 2,
         Ev_construct url]"
    by (simp add: r trace_emit e attempt_failed_def)
qed

theorem fetcher_retry_schedule_witness:
  "isl (remote failing_env (constructions w0) (str ''u'')) \<and>
   isl (remote failing_env (constructions w0 + 1) (str ''u'')) \<and>
   isl (remote failing_env (constructions w0 + 2) (str ''u'')) \<and>
   fst (get_yt_object failing_env (str ''u'') 3 w0) = Inl ExtractionFailed \<and>
   constructions (snd (get_yt_object failing_env (str ''u'') 3 w0)) = 3 \<and>
   sleeps (snd (get_yt_object failing_env (str ''u'') 3 w0)) = [1, 2] \<and>
   trace (snd (get_yt_object failing_env (str ''u'') 3 w0)) =
     [Ev_construct (str ''u''), attempt_failed 1 timed_out, Ev_sleep 1,
      Ev_construct (str ''u''), attempt_failed 2 timed_out, Ev_sleep 2,
      Ev_construct (str ''u''), attempt_failed 3 timed_out] \<and>
   isl (remote flaky_env (constructions w0) (str ''u'')) \<and>
   isl (remote flaky_env (constructions w0 + 1) (str ''u'')) \<and>
   remote flaky_env (constructions w0 + 2) (str ''u'') = Inr ex_handle \<and>
   fst (get_yt_object flaky_env (str ''u'') 3 w0) = Inr ex_handle \<and>
   constructions (snd (get_yt_object flaky_env (str ''u'') 3 w0)) = 3 \<and>
   total_wait (snd (get_yt_object flaky_env (str ''u'') 3 w0)) = 3 \<and>
   trace (snd (get_yt_object flaky_env (str ''u'') 3 w0)) =
     [Ev_construct (str ''u''), attempt_failed 1 timed_out, Ev_sleep 1,
      Ev_construct (str ''u''), attempt_failed 2 timed_out, Ev_sleep 2,
      Ev_construct (str ''u'')]"
proof -
  have c: "constructions w0 = 0" "sleeps w0 = []" "trace w0 = []" "total_wait w0 = 0"
    by (simp_all add: constructions_def sleeps_def total_wait_def w0_def)
  have rf: "remote failing_env k u = Inl timed_out" for k u
    by (simp add: failing_env_def)
  have rg: "remote flaky_env k u = (if k < 2 then Inl timed_out else Inr ex_handle)" for k u
    by (simp add: flaky_env_def)
  have pf: "isl (remote failing_env (constructions w0) (str ''u'')) \<and>
      isl (remote failing_env (constructions w0 + 1) (str ''u'')) \<and>
      isl (remote failing_env (constructions w0 + 2) (str ''u''))"
    by (simp add: rf)
  have pg: "isl (remote flaky_env (constructions w0) (str ''u'')) \<and>
      isl (remote flaky_env (constructions w0 + 1) (str ''u'')) \<and>
      remote flaky_env (constructions w0 + 2) (str ''u'') = Inr ex_handle"
    by (simp add: rg c)
  note f = fetcher_retry_schedule
    [of failing_env w0 "str ''u''" ex_handle, THEN conjunct1, THEN mp, OF pf]
  note g = fetcher_retry_schedule
    [of flaky_env w0 "str ''u''" ex_handle, THEN conjunct2, THEN mp, OF pg]
  have F: "fst (get_yt_object failing_env (str ''u'') 3 w0) = Inl ExtractionFailed"
    "constructions (snd (get_yt_object failing_env (str ''u'') 3 w0)) = 3"
    "sleeps (snd (get_yt_object failing_env (str ''u'') 3 w0)) = [1, 2]"
    "trace (snd (get_yt_object failing_env (str ''u'') 3 w0)) =
     [Ev_construct (str ''u''), attempt_failed 1 timed_out, Ev_sleep 1,
      Ev_construct (str ''u''), attempt_failed 2 timed_out, Ev_sleep 2,
      Ev_construct (str ''u''), attempt_failed 3 timed_out]"
    using f by (simp_all add: c rf)
  have G: "fst (get_yt_object flaky_env (str ''u'') 3 w0) = Inr ex_handle"
    "constructions (snd (get_yt_object flaky_env (str ''u'') 3 w0)) = 3"
    "total_wait (snd (get_yt_object flaky_env (str ''u'') 3 w0)) = 3"
    "trace (snd (get_yt_object flaky_env (str ''u'') 3 w0)) =
     [Ev_construct (str ''u''), attempt_failed 1 timed_out, Ev_sleep 1,
      Ev_construct (str ''u''), attempt_failed 2 timed_out, Ev_sleep 2,
      Ev_construct (str ''u'')]"
    using g by (simp_all add: c rg)
  from pf pg F G show ?thesis
    by (intro conjI) simp_all
qed

text \<open>
  C3, as stated, fails: on a service that never answers the waits are 1 and 2, not
  1, 2 and 4.
\<close>

lemma w0_counts: "constructions w0 = 0" "sleeps w0 = []"
  by (simp_all add: constructions_def sleeps_def w0_def)

theorem fetcher_waits_counterexample:
  "sleeps (snd (get_yt_object failing_env (str ''u'') 3 w0)) = [1, 2] \<and>
   sleeps (snd (get_yt_object failing_env (str ''u'') 3 w0)) \<noteq> [1, 2, 4]"
  by (simp add: get_yt_object_def failing_env_def good_env_def constructions_emit sleeps_emit
      w0_counts Let_def)

section \<open>The selection of a stream\<close>

lemma fold_higher_mem: "fold higher ss s \<in> set (s # ss)"
  by (induction ss arbitrary: s) (auto simp: higher_def)

lemma fold_higher_ge: "res_value (resolution s) \<le> res_value (resolution (fold higher ss s))"
proof (induction ss arbitrary: s)
  case (Cons t ss)
  have "res_value (resolution s) \<le> res_value (resolution (higher t s))"
    by (simp add: higher_def)
  also have "\<dots> \<le> res_value (resolution (fold higher ss (higher t s)))"
    by (rule Cons.IH)
  finally show ?case by simp
qed simp

lemma fold_higher_max:
  "t \<in> set (s # ss) \<Longrightarrow> res_value (resolution t) \<le> res_value (resolution (fold higher ss s))"
proof (induction ss arbitrary: s)
  case Nil
  then show ?case by simp
next
  case (Cons u ss)
  have h: "res_value (resolution u) \<le> res_value (resolution (higher u s))"
    "res_value (resolution s) \<le> res_value (resolution (higher u s))"
    by (simp_all add: higher_def)
  from Cons.prems consider "t = s" | "t = u" | "t \<in> set ss" by auto
  then show ?case
  proof cases
    case 1
    then show ?thesis using h(2) fold_higher_ge[of "higher u s" ss] by simp
  next
    case 2
    then show ?thesis using h(1) fold_higher_ge[of "higher u s" ss] by simp
  next
    case 3
    then show ?thesis using Cons.IH[of "higher u s"] by simp
  qed
qed

lemma fold_lower_mem: "fold lower ss s \<in> set (s # ss)"
  by (induction ss arbitrary: s) (auto simp: lower_def)

lemma fold_lower_le: "res_value (resolution (fold lower ss s)) \<le> res_value (resolution s)"
proof (induction ss arbitrary: s)
  case (Cons t ss)
  have "res_value (resolution (fold lower ss (lower t s))) \<le> res_value (resolution (lower t s))"
    by (rule Cons.IH)
  also have "\<dots> \<le> res_value (resolution s)"
    by (simp add: lower_def)
  finally show ?case by simp
qed simp

lemma fold_lower_min:
  "t \<in> set (s # ss) \<Longrightarrow> res_value (resolution (fold lower ss s)) \<le> res_value (resolution t)"
proof (induction ss arbitrary: s)
  case Nil
  then show ?case by simp
next
  case (Cons u ss)
  have h: "res_value (resolution (lower u s)) \<le> res_value (resolution u)"
    "res_value (resolution (lower u s)) \<le> res_value (resolution s)"
    by (simp_all add: lower_def)
  from Cons.prems consider "t = s" | "t = u" | "t \<in> set ss" by auto
  then show ?case
  proof cases
    case 1
    then show ?thesis using h(2) fold_lower_le[of ss "lower u s"] by simp
  next
    case 2
    then show ?thesis using h(1) fold_lower_le[of ss "lower u s"] by simp
  next
    case 3
    then show ?thesis using Cons.IH[of "lower u s"] by simp
  qed
qed

lemma highest_is_max:
  "ss \<noteq> [] \<Longrightarrow> \<exists>s. get_highest_resolution ss = Some s \<and> s \<in> set ss \<and>
     (\<forall>t \<in> set ss. res_value (resolution t) \<le> res_value (resolution s))"
  using fold_higher_mem fold_higher_max by (cases ss) auto

lemma lowest_is_min:
  "ss \<noteq> [] \<Longrightarrow> \<exists>s. get_lowest_resolution ss = Some s \<and> s \<in> set ss \<and>
     (\<forall>t \<in> set ss. res_value (resolution s) \<le> res_value (resolution t))"
  using fold_lower_mem fold_lower_min by (cases ss) auto

lemma by_resolution_found:
  "\<exists>s \<in> set ss. resolution s = q \<Longrightarrow>
   \<exists>s. get_by_resolution q ss = Some s \<and> s \<in> set ss \<and> resolution s = q"
  by (induction ss) (auto simp: get_by_resolution_def)

lemma by_resolution_absent:
  "\<forall>s \<in> set ss. resolution s \<noteq> q \<Longrightarrow> get_by_resolution q ss = None"
  by (induction ss) (auto simp: get_by_resolution_def)

section \<open>Exceptions of no recognized class\<close>

text \<open>The fetcher gives alike outcomes on alike collaborators, whatever is logged.\<close>

lemma exn_sim_refl: "exn_sim e e"
  by (simp add: exn_sim_def)

lemma sum_sim_refl: "sum_sim x x"
  by (cases x) (simp_all add: exn_sim_refl)

lemma sum_sim_cases:
  "sum_sim x y \<Longrightarrow> (\<exists>e1 e2. x = Inl e1 \<and> y = Inl e2 \<and> exn_sim e1 e2) \<or> (\<exists>v. x = Inr v \<and> y = Inr v)"
  by (cases x; cases y) simp_all

lemma bind_sim:
  "sum_sim x y \<Longrightarrow> (\<And>v. sum_sim (f v) (g v)) \<Longrightarrow> sum_sim (bind x f) (bind y g)"
  by (cases x; cases y) (simp_all add: bind_def)

lemma files_emit: "files (emit ev w) = files w"
  by (simp add: emit_def)

lemma loop_sim:
  assumes "env_sim E1 E2"
  shows "constructions w1 = constructions w2 \<Longrightarrow> files w1 = files w2 \<Longrightarrow>
     fetch_sim (fst (get_yt_loop E1 url m a w1)) (fst (get_yt_loop E2 url m a w2)) \<and>
     constructions (snd (get_yt_loop E1 url m a w1)) = constructions (snd (get_yt_loop E2 url m a w2)) \<and>
     files (snd (get_yt_loop E1 url m a w1)) = files (snd (get_yt_loop E2 url m a w2))"
proof (induction "nat (m - a)" arbitrary: a w1 w2)
  case 0
  then have "\<not> a < m" by simp
  then show ?case using 0 by (simp add: get_yt_loop_end exn_sim_refl del: get_yt_loop.simps)
next
  case (Suc n)
  then have lt: "a < m" by simp
  from assms have fs: "fetch_sim (remote E1 (constructions w1) url) (remote E2 (constructions w1) url)"
    by (simp add: env_sim_def)
  show ?case
  proof (cases "remote E1 (constructions w1) url")
    case (Inr h1)
    with fs obtain h2 where h2: "remote E2 (constructions w2) url = Inr h2" "handle_sim h1 h2"
      using Suc.prems(1) by (cases "remote E2 (constructions w1) url") auto
    show ?thesis
      using Suc.prems
      by (simp add: get_yt_loop_success[OF lt Inr] get_yt_loop_success[OF lt h2(1)] h2(2)
          constructions_emit files_emit del: get_yt_loop.simps)
  next
    case (Inl e1)
    with fs obtain e2 where e2: "remote E2 (constructions w2) url = Inl e2"
      using Suc.prems(1) by (cases "remote E2 (constructions w1) url") auto
    have n: "n = nat (m - (a + 1))" using Suc.hyps(2) by simp
    show ?thesis
      unfolding get_yt_loop_retry[OF lt Inl] get_yt_loop_retry[OF lt e2]
      by (rule Suc.hyps(1)[OF n]) (simp_all add: constructions_emit files_emit Suc.prems)
  qed
qed

text \<open>The info handler on alike collaborators.\<close>

lemma home_context_sim:
  "handle_sim h1 h2 \<Longrightarrow> sum_sim (home_context h1 u) (home_context h2 u)"
  unfolding home_context_def handle_sim_def
  by (intro bind_sim sum_sim_refl; simp)

lemma home_except_fst:
  "fst (home_except url e w) =
     (if is_PytubeError (exn_cls e) then [(''error'', CStr (exn_msg e))]
      else [(''error'', CStr (str ''Failed to fetch video information''))])"
  by (cases "exn_cls e") (simp_all add: home_except_def)

lemma home_except_sim:
  "exn_sim e1 e2 \<Longrightarrow> fst (home_except url e1 w1) = fst (home_except url e2 w2)"
  by (auto simp: home_except_fst exn_sim_def unrecognized_def)

lemma home_try_sim:
  assumes "env_sim E1 E2"
  shows "sum_sim (fst (home_try E1 url w)) (fst (home_try E2 url w))"
proof (cases "sanitize_youtube_url url")
  case (Inl e)
  then show ?thesis by (simp add: home_try_def exn_sim_refl)
next
  case (Inr clean)
  let ?w = "emit (Ev_sanitize url) w"
  from loop_sim[OF assms, of ?w ?w clean 3 0]
  have f: "fetch_sim (fst (get_yt_object E1 clean 3 ?w)) (fst (get_yt_object E2 clean 3 ?w))"
    by (simp add: get_yt_object_def del: get_yt_loop.simps)
  obtain r1 v1 r2 v2 where r: "get_yt_object E1 clean 3 ?w = (r1, v1)" "get_yt_object E2 clean 3 ?w = (r2, v2)"
    by fastforce
  with f have "fetch_sim r1 r2" by simp
  then show ?thesis
    by (cases r1; cases r2) (simp_all add: home_try_def Inr r home_context_sim)
qed

lemma home_fst:
  "fst (home E req w) =
     (if req_method req = str ''POST'' then
        if strip (POST_get req ''url'' []) = [] then
          Render ''home.html'' [(''error'', CStr (str ''Please enter a YouTube URL''))]
        else (case fst (home_try E (strip (POST_get req ''url'' [])) w) of
                Inr ctx \<Rightarrow> Render ''home.html'' ctx
              | Inl e \<Rightarrow> Render ''home.html'' (fst (home_except (strip (POST_get req ''url'' [])) e w)))
      else Render ''home.html'' [])"
  by (simp add: home_def Let_def case_prod_beta home_except_fst split: sum.splits)

lemma home_sim:
  assumes "env_sim E1 E2"
  shows "fst (home E1 req w) = fst (home E2 req w)"
  using sum_sim_cases[OF home_try_sim[OF assms, of "strip (POST_get req ''url'' [])" w]]
  by (auto simp: home_fst home_except_sim[of _ _ _ w w])


text \<open>The download handler on alike collaborators.\<close>

lemma opt_sim_cases:
  "opt_sim x y \<Longrightarrow> (x = None \<and> y = None) \<or> (\<exists>e1 e2. x = Some e1 \<and> y = Some e2 \<and> exn_sim e1 e2)"
  by (cases x; cases y) simp_all

lemma select_stream_sim:
  "handle_sim h1 h2 \<Longrightarrow> sum_sim (select_stream h1 q) (select_stream h2 q)"
  unfolding select_stream_def handle_sim_def
  by (auto intro!: bind_sim sum_sim_refl)

lemma pick_stream_sim:
  "handle_sim h1 h2 \<Longrightarrow> sum_sim (pick_stream h1 q) (pick_stream h2 q)"
  unfolding pick_stream_def
  by (intro bind_sim select_stream_sim sum_sim_refl)

lemma download_try_sim:
  assumes "env_sim E1 E2"
  shows "sum_sim (fst (download_try E1 url q w)) (fst (download_try E2 url q w))"
proof (cases "sanitize_youtube_url url")
  case (Inl e)
  then show ?thesis by (simp add: download_try_def exn_sim_refl)
next
  case (Inr clean)
  let ?w = "emit (Ev_sanitize url) w"
  from loop_sim[OF assms, of ?w ?w clean 3 0]
  have f: "fetch_sim (fst (get_yt_object E1 clean 3 ?w)) (fst (get_yt_object E2 clean 3 ?w))"
    "files (snd (get_yt_object E1 clean 3 ?w)) = files (snd (get_yt_object E2 clean 3 ?w))"
    by (simp_all add: get_yt_object_def del: get_yt_loop.simps)
  obtain r1 v1 r2 v2 where r: "get_yt_object E1 clean 3 ?w = (r1, v1)" "get_yt_object E2 clean 3 ?w = (r2, v2)"
    by fastforce
  with f have fr: "fetch_sim r1 r2" and fv: "files v1 = files v2" by simp_all
  show ?thesis
  proof (cases r1)
    case e1: (Inl e1)
    with fr obtain e2 where "r2 = Inl e2" "exn_sim e1 e2" by (cases r2) auto
    then show ?thesis by (simp add: download_try_def Inr r e1)
  next
    case h1: (Inr h1)
    with fr obtain h2 where h2: "r2 = Inr h2" "handle_sim h1 h2" by (cases r2) auto
    from sum_sim_cases[OF pick_stream_sim[OF h2(2), of q]] show ?thesis
    proof (elim disjE exE conjE)
      fix e1 e2 assume "pick_stream h1 q = Inl e1" "pick_stream h2 q = Inl e2" "exn_sim e1 e2"
      then show ?thesis by (simp add: download_try_def Inr r h1 h2)
    next
      fix st assume st: "pick_stream h1 q = Inr st" "pick_stream h2 q = Inr st"
      from assms have md: "opt_sim (makedirs E1) (makedirs E2)" by (simp add: env_sim_def)
      from opt_sim_cases[OF md] show ?thesis
      proof (elim disjE exE conjE)
        fix e1 e2 assume "makedirs E1 = Some e1" "makedirs E2 = Some e2" "exn_sim e1 e2"
        then show ?thesis by (simp add: download_try_def Inr r h1 h2 st)
      next
        assume mk: "makedirs E1 = None" "makedirs E2 = None"
        from h2(2) have ti: "sum_sim (yt_title h1) (yt_title h2)" and vid: "yt_video_id h1 = yt_video_id h2"
          by (simp_all add: handle_sim_def)
        from sum_sim_cases[OF ti] show ?thesis
        proof (elim disjE exE conjE)
          fix e1 e2 assume "yt_title h1 = Inl e1" "yt_title h2 = Inl e2" "exn_sim e1 e2"
          then show ?thesis by (simp add: download_try_def Inr r h1 h2 st mk)
        next
          fix title assume t: "yt_title h1 = Inr title" "yt_title h2 = Inr title"
          from assms have ua: "unicode_alnum E1 = unicode_alnum E2" by (simp add: env_sim_def)
          let ?name = "make_filename (unicode_alnum E2) title (yt_video_id h2)"
          from assms have rt: "opt_sim (fst (retrieve E1 st ?name (files v2))) (fst (retrieve E2 st ?name (files v2)))"
            "snd (retrieve E1 st ?name (files v2)) = snd (retrieve E2 st ?name (files v2))"
            by (simp_all add: env_sim_def)
          obtain x1 fs1 x2 fs2 where rr: "retrieve E1 st ?name (files v2) = (x1, fs1)"
            "retrieve E2 st ?name (files v2) = (x2, fs2)" by fastforce
          with rt have xs: "opt_sim x1 x2" and fse: "fs1 = fs2" by simp_all
          from opt_sim_cases[OF xs] show ?thesis
            by (auto simp: download_try_def Inr r h1 h2 st mk t ua vid fv files_emit rr fse
                exn_sim_refl Let_def split: option.splits)
        qed
      qed
    qed
  qed
qed

lemma download_except_fst:
  "fst (download_except url e w) =
     (if is_PytubeError (exn_cls e) then
        Render ''home.html'' [(''error'', CStr (exn_msg e)), (''url'', CStr url)]
      else Render ''home.html''
             [(''error'', CStr (str ''Download failed. Please try again later.'')),
              (''url'', CStr url)])"
  by (simp add: download_except_def)

lemma download_except_sim:
  "exn_sim e1 e2 \<Longrightarrow> fst (download_except url e1 w1) = fst (download_except url e2 w2)"
  by (auto simp: download_except_fst exn_sim_def unrecognized_def)

lemma download_fst:
  "fst (download_video E req w) =
     (if req_method req = str ''POST'' then
        if strip (POST_get req ''url'' []) = [] then HttpResponseBadRequest (str ''No URL provided'')
        else (case fst (download_try E (strip (POST_get req ''url'' []))
                         (POST_get req ''quality'' (str ''highest'')) w) of
                Inr resp \<Rightarrow> resp
              | Inl e \<Rightarrow> fst (download_except (strip (POST_get req ''url'' [])) e w))
      else Redirect ''home'')"
  by (simp add: download_video_def Let_def case_prod_beta download_except_fst split: sum.splits)

lemma download_sim:
  assumes "env_sim E1 E2"
  shows "fst (download_video E1 req w) = fst (download_video E2 req w)"
  using sum_sim_cases[OF download_try_sim[OF assms, of "strip (POST_get req ''url'' [])"
        "POST_get req ''quality'' (str ''highest'')" w]]
  by (auto simp: download_fst download_except_sim[of _ _ _ w w])


text \<open>An example: a handle whose title raises \<open>KeyError\<close>, with two texts.\<close>

lemma sanitize_example:
  "sanitize_youtube_url (str ''https://youtu.be/abc12345678'') =
     Inr (str ''https://www.youtube.com/watch?v=abc12345678'')"
proof -
  have "rmatch (Rep 11 (Cls id_class)) (str ''abc12345678'' @ []) = [(None, [])]"
    by (rule rmatch_Rep_Cls) (simp_all add: id_class_def str_def ord_def)
  then have "rmatch rx_id (str ''abc12345678'') = [(Some (str ''abc12345678''), [])]"
    by (simp add: rx_id_def str_def)
  then show ?thesis
    by (simp add: sanitize_youtube_url_def patterns_def url_pattern_def rx_scheme_def rx_host_def
        str_def ord_def keep_group_def)
qed

lemma broken_env_sim: "env_sim (broken_env a) (broken_env b)"
  by (simp add: env_sim_def broken_env_def good_env_def handle_sim_def ex_handle_def exn_sim_def
      unrecognized_def)

lemma broken_fetch:
  "get_yt_object (broken_env t) u 3 (emit (Ev_sanitize v) w0) =
     (Inr (ex_handle\<lparr>yt_title := Inl (Exn (OtherException ''KeyError'') t)\<rparr>),
      emit (Ev_construct u) (emit (Ev_sanitize v) w0))"
  by (simp add: get_yt_object_def broken_env_def good_env_def)

lemma broken_home_try:
  "fst (home_try (broken_env t) (str ''https://youtu.be/abc12345678'') w0) =
     Inl (Exn (OtherException ''KeyError'') t)"
  by (simp add: home_try_def sanitize_example broken_fetch home_context_def bind_def ex_handle_def)

lemma broken_download_try:
  "fst (download_try (broken_env t) (str ''https://youtu.be/abc12345678'') (str ''highest'') w0) =
     Inl (Exn (OtherException ''KeyError'') t)"
proof -
  have m: "makedirs (broken_env t) = None"
    by (simp add: broken_env_def good_env_def)
  show ?thesis
    by (simp add: download_try_def sanitize_example broken_fetch pick_stream_def select_stream_def
        bind_def ex_handle_def m)
qed

text \<open>
  C7. An exception of no recognized class, raised while an info or a download submission
  is handled, reaches the user as a fixed message only ("Failed to fetch video
  information", "Download failed. Please try again later."), and nothing of its content
  does: two runs on the same request whose collaborators differ only in the texts of
  such exceptions give the same response.
\<close>

theorem unrecognized_exception_hidden:
  "(env_sim E1 E2 \<longrightarrow>
      fst (home E1 req w) = fst (home E2 req w) \<and>
      fst (download_video E1 req w) = fst (download_video E2 req w)) \<and>
   (req_method req = str ''POST'' \<and> strip (POST_get req ''url'' []) = url \<and> url \<noteq> [] \<and>
    fst (home_try E1 url w) = Inl e \<and> unrecognized e \<longrightarrow>
      fst (home E1 req w) =
        Render ''home.html'' [(''error'', CStr (str ''Failed to fetch video information''))]) \<and>
   (req_method req = str ''POST'' \<and> strip (POST_get req ''url'' []) = url \<and> url \<noteq> [] \<and>
    fst (download_try E1 url (POST_get req ''quality'' (str ''highest'')) w) = Inl e' \<and>
    unrecognized e' \<longrightarrow>
      fst (download_video E1 req w) =
        Render ''home.html''
          [(''error'', CStr (str ''Download failed. Please try again later.'')),
           (''url'', CStr url)])"
proof (intro conjI impI)
  assume "env_sim E1 E2"
  then show "fst (home E1 req w) = fst (home E2 req w)"
    "fst (download_video E1 req w) = fst (download_video E2 req w)"
    by (rule home_sim, rule download_sim)
next
  assume "req_method req = str ''POST'' \<and> strip (POST_get req ''url'' []) = url \<and> url \<noteq> [] \<and>
    fst (home_try E1 url w) = Inl e \<and> unrecognized e"
  then show "fst (home E1 req w) =
      Render ''home.html'' [(''error'', CStr (str ''Failed to fetch video information''))]"
    by (auto simp: home_fst home_except_fst unrecognized_def)
next
  assume "req_method req = str ''POST'' \<and> strip (POST_get req ''url'' []) = url \<and> url \<noteq> [] \<and>
    fst (download_try E1 url (POST_get req ''quality'' (str ''highest'')) w) = Inl e' \<and>
    unrecognized e'"
  then show "fst (download_video E1 req w) =
      Render ''home.html''
        [(''error'', CStr (str ''Download failed. Please try again later.'')),
         (''url'', CStr url)]"
    by (auto simp: download_fst download_except_fst unrecognized_def)
qed

lemma strip_example:
  "strip (str ''https://youtu.be/abc12345678'') = str ''https://youtu.be/abc12345678''"
  by (simp add: strip_def lstrip_def rstrip_def isspace_def str_def ord_def)

lemma url_example_nonempty: "str ''https://youtu.be/abc12345678'' \<noteq> []"
  by (simp add: str_def)

theorem unrecognized_exception_hidden_witness:
  "env_sim (broken_env (str ''secret A'')) (broken_env (str ''secret B'')) \<and>
   fst (home_try (broken_env (str ''secret A'')) (str ''https://youtu.be/abc12345678'') w0) =
     Inl (Exn (OtherException ''KeyError'') (str ''secret A'')) \<and>
   unrecognized (Exn (OtherException ''KeyError'') (str ''secret A'')) \<and>
   fst (home (broken_env (str ''secret A''))
          (post (Map.empty(''url'' \<mapsto> str ''https://youtu.be/abc12345678''))) w0) =
     fst (home (broken_env (str ''secret B''))
          (post (Map.empty(''url'' \<mapsto> str ''https://youtu.be/abc12345678''))) w0) \<and>
   fst (home (broken_env (str ''secret A''))
          (post (Map.empty(''url'' \<mapsto> str ''https://youtu.be/abc12345678''))) w0) =
     Render ''home.html'' [(''error'', CStr (str ''Failed to fetch video information''))] \<and>
   fst (download_video (broken_env (str ''secret A''))
          (post (Map.empty(''url'' \<mapsto> str ''https://youtu.be/abc12345678''))) w0) =
     fst (download_video (broken_env (str ''secret B''))
          (post (Map.empty(''url'' \<mapsto> str ''https://youtu.be/abc12345678''))) w0) \<and>
   fst (download_video (broken_env (str ''secret A''))
          (post (Map.empty(''url'' \<mapsto> str ''https://youtu.be/abc12345678''))) w0) =
     Render ''home.html''
       [(''error'', CStr (str ''Download failed. Please try again later.'')),
        (''url'', CStr (str ''https://youtu.be/abc12345678''))]"
proof -
  let ?A = "broken_env (str ''secret A'')"
  let ?B = "broken_env (str ''secret B'')"
  let ?req = "post (Map.empty(''url'' \<mapsto> str ''https://youtu.be/abc12345678''))"
  let ?e = "Exn (OtherException ''KeyError'') (str ''secret A'')"
  note t = unrecognized_exception_hidden
    [of ?A ?B ?req w0 "str ''https://youtu.be/abc12345678''" ?e ?e]
  have u: "unrecognized ?e"
    by (simp add: unrecognized_def)
  have h: "fst (home ?A ?req w0) = fst (home ?B ?req w0)"
    "fst (download_video ?A ?req w0) = fst (download_video ?B ?req w0)"
    using t broken_env_sim by blast+
  have p: "req_method ?req = str ''POST''" "strip (POST_get ?req ''url'' []) = str ''https://youtu.be/abc12345678''"
    "POST_get ?req ''quality'' (str ''highest'') = str ''highest''"
    by (simp_all add: post_def POST_get_def strip_example)
  have g1: "fst (home ?A ?req w0) =
      Render ''home.html'' [(''error'', CStr (str ''Failed to fetch video information''))]"
    using t p u broken_home_try [of "str ''secret A''"] url_example_nonempty by simp
  have g2: "fst (download_video ?A ?req w0) =
      Render ''home.html''
        [(''error'', CStr (str ''Download failed. Please try again later.'')),
         (''url'', CStr (str ''https://youtu.be/abc12345678''))]"
    using t p u broken_download_try [of "str ''secret A''"] url_example_nonempty by simp
  show ?thesis
    by (intro conjI) (rule broken_env_sim broken_home_try u h g1 g2)+
qed

section \<open>The stream that a download retrieves\<close>

lemma downloads_emit: "downloads (emit ev w) = downloads w @ download_of ev"
  by (simp add: downloads_def emit_def)

lemma downloads_files: "downloads (w\<lparr>files := fs\<rparr>) = downloads w"
  by (simp add: downloads_def)

lemma loop_downloads: "downloads (snd (get_yt_loop E url m a w)) = downloads w"
proof (induction "nat (m - a)" arbitrary: a w)
  case 0
  then have "\<not> a < m" by simp
  then show ?case by (simp add: get_yt_loop_end del: get_yt_loop.simps)
next
  case (Suc n)
  then have lt: "a < m" by simp
  show ?case
  proof (cases "remote E (constructions w) url")
    case (Inr yt)
    then show ?thesis
      by (simp add: get_yt_loop_success[OF lt Inr] downloads_emit del: get_yt_loop.simps)
  next
    case (Inl e)
    have n: "n = nat (m - (a + 1))" using Suc.hyps(2) by simp
    let ?w = "(if a < m - 1 then emit (Ev_sleep (2 ^ nat a)) else id)
          (emit (Ev_log_warning (str ''Attempt '' @ str_int (a + 1) @ str '' failed: '' @ exn_msg e))
             (emit (Ev_construct url) w))"
    have "downloads (snd (get_yt_loop E url m (a + 1) ?w)) = downloads ?w"
      by (rule Suc.hyps(1)[OF n])
    also have "\<dots> = downloads w"
      by (simp add: downloads_emit)
    finally show ?thesis
      unfolding get_yt_loop_retry[OF lt Inl] .
  qed
qed

lemma fetch_downloads: "downloads (snd (get_yt_object E url m w)) = downloads w"
  by (simp add: get_yt_object_def loop_downloads del: get_yt_loop.simps)

text \<open>
  The download handler on a submission that is normalized and fetched: the stream that
  the selection gives is the one retrieved, and a selection that raises ends the run.
\<close>

lemma download_try_selected:
  assumes "sanitize_youtube_url url = Inr clean"
    and "fst (get_yt_object E clean 3 (emit (Ev_sanitize url) w)) = Inr yt"
    and "pick_stream yt q = Inr s" and "makedirs E = None" and "yt_title yt = Inr title"
  shows "downloads (snd (download_try E url q w)) = downloads w @ [s]"
proof -
  obtain w2 where g: "get_yt_object E clean 3 (emit (Ev_sanitize url) w) = (Inr yt, w2)"
    using assms(2) by (cases "get_yt_object E clean 3 (emit (Ev_sanitize url) w)") simp
  have d: "downloads w2 = downloads w"
    using fetch_downloads[of E clean 3 "emit (Ev_sanitize url) w"] g by (simp add: downloads_emit)
  show ?thesis
    by (simp add: download_try_def assms(1,3,4,5) g Let_def downloads_emit downloads_files d
        split: prod.splits option.splits)
qed

lemma download_try_not_selected:
  assumes "sanitize_youtube_url url = Inr clean"
    and "fst (get_yt_object E clean 3 (emit (Ev_sanitize url) w)) = Inr yt"
    and "pick_stream yt q = Inl e"
  shows "fst (download_try E url q w) = Inl e \<and> downloads (snd (download_try E url q w)) = downloads w"
proof -
  obtain w2 where g: "get_yt_object E clean 3 (emit (Ev_sanitize url) w) = (Inr yt, w2)"
    using assms(2) by (cases "get_yt_object E clean 3 (emit (Ev_sanitize url) w)") simp
  have d: "downloads w2 = downloads w"
    using fetch_downloads[of E clean 3 "emit (Ev_sanitize url) w"] g by (simp add: downloads_emit)
  show ?thesis
    by (simp add: download_try_def assms(1,3) g d)
qed

lemma download_video_downloads:
  assumes "req_method req = str ''POST''" and "strip (POST_get req ''url'' []) = url" and "url \<noteq> []"
    and "POST_get req ''quality'' (str ''highest'') = q"
  shows "downloads (snd (download_video E req w)) = downloads (snd (download_try E url q w))"
  using assms
  by (auto simp: download_video_def Let_def download_except_def downloads_emit
      split: prod.splits sum.splits)

lemma download_video_no_stream:
  assumes "req_method req = str ''POST''" and "strip (POST_get req ''url'' []) = url" and "url \<noteq> []"
    and "POST_get req ''quality'' (str ''highest'') = q"
    and "fst (download_try E url q w) = Inl NoSuitableStream"
  shows "fst (download_video E req w) =
     Render ''home.html'' [(''error'', CStr (str ''No suitable stream found'')), (''url'', CStr url)]"
  using assms
  by (auto simp: download_video_def Let_def download_except_def NoSuitableStream_def
      split: prod.splits sum.splits)

text \<open>The selection followed by the test for no stream, branch by branch.\<close>

lemma pick_highest:
  assumes "yt_streams yt = Inr ss" and "ss \<noteq> []"
  shows "\<exists>s. pick_stream yt (str ''highest'') = Inr s \<and> s \<in> set ss \<and>
     (\<forall>t \<in> set ss. res_value (resolution t) \<le> res_value (resolution s))"
  using highest_is_max[OF assms(2)]
  by (auto simp: pick_stream_def select_stream_def bind_def assms(1))

lemma pick_lowest:
  assumes "yt_streams yt = Inr ss" and "ss \<noteq> []"
  shows "\<exists>s. pick_stream yt (str ''lowest'') = Inr s \<and> s \<in> set ss \<and>
     (\<forall>t \<in> set ss. res_value (resolution s) \<le> res_value (resolution t))"
proof -
  have ne: "str ''lowest'' \<noteq> str ''highest''"
    by (simp add: str_def ord_def)
  from lowest_is_min[OF assms(2)] show ?thesis
    by (auto simp: pick_stream_def select_stream_def bind_def assms(1) ne)
qed

lemma pick_label:
  assumes "yt_streams yt = Inr ss" and "q \<noteq> str ''highest''" and "q \<noteq> str ''lowest''"
    and "\<exists>s \<in> set ss. resolution s = q"
  shows "\<exists>s. pick_stream yt q = Inr s \<and> s \<in> set ss \<and> resolution s = q"
  using by_resolution_found[OF assms(4)]
  by (auto simp: pick_stream_def select_stream_def bind_def assms(1,2,3))

lemma pick_absent:
  assumes "yt_streams yt = Inr ss" and "q \<noteq> str ''highest''" and "q \<noteq> str ''lowest''"
    and "\<forall>s \<in> set ss. resolution s \<noteq> q"
  shows "pick_stream yt q = Inl NoSuitableStream"
  using by_resolution_absent[OF assms(4)]
  by (simp add: pick_stream_def select_stream_def bind_def assms(1,2,3) NoSuitableStream_def)

lemma pick_empty:
  assumes "yt_streams yt = Inr []"
  shows "pick_stream yt q = Inl NoSuitableStream"
  by (simp add: pick_stream_def select_stream_def bind_def assms NoSuitableStream_def
      get_by_resolution_def)

lemma example_labels:
  "str ''480p'' \<noteq> str ''highest''" "str ''480p'' \<noteq> str ''lowest''"
  "str ''1080p'' \<noteq> str ''highest''" "str ''1080p'' \<noteq> str ''lowest''"
  "str ''lowest'' \<noteq> str ''highest''"
  by (simp_all add: str_def ord_def)


text \<open>
  C4. On a submission that is normalized and fetched, the download handler retrieves a
  stream of maximum resolution when \<open>quality\<close> is \<open>highest\<close>, one of minimum resolution
  when it is \<open>lowest\<close>, and for any other value a stream whose label is that value;
  when no stream resolves (a label that no stream has, an empty collection) it retrieves
  nothing and fails with the "no suitable stream" error, which the page shows.
\<close>

theorem stream_selection_policy:
  assumes "req_method req = str ''POST''" and "strip (POST_get req ''url'' []) = url"
    and "url \<noteq> []" and "POST_get req ''quality'' (str ''highest'') = q"
    and "sanitize_youtube_url url = Inr clean"
    and "fst (get_yt_object E clean 3 (emit (Ev_sanitize url) w)) = Inr yt"
    and "yt_streams yt = Inr ss"
  shows "(q = str ''highest'' \<and> ss \<noteq> [] \<and> makedirs E = None \<and> (\<exists>title. yt_title yt = Inr title) \<longrightarrow>
            (\<exists>s. downloads (snd (download_video E req w)) = downloads w @ [s] \<and> s \<in> set ss \<and>
                 (\<forall>t \<in> set ss. res_value (resolution t) \<le> res_value (resolution s)))) \<and>
         (q = str ''lowest'' \<and> ss \<noteq> [] \<and> makedirs E = None \<and> (\<exists>title. yt_title yt = Inr title) \<longrightarrow>
            (\<exists>s. downloads (snd (download_video E req w)) = downloads w @ [s] \<and> s \<in> set ss \<and>
                 (\<forall>t \<in> set ss. res_value (resolution s) \<le> res_value (resolution t)))) \<and>
         (q \<noteq> str ''highest'' \<and> q \<noteq> str ''lowest'' \<and> (\<exists>s \<in> set ss. resolution s = q) \<and>
          makedirs E = None \<and> (\<exists>title. yt_title yt = Inr title) \<longrightarrow>
            (\<exists>s. downloads (snd (download_video E req w)) = downloads w @ [s] \<and> s \<in> set ss \<and>
                 resolution s = q)) \<and>
         (ss = [] \<or> (q \<noteq> str ''highest'' \<and> q \<noteq> str ''lowest'' \<and> (\<forall>s \<in> set ss. resolution s \<noteq> q)) \<longrightarrow>
            fst (download_try E url q w) = Inl NoSuitableStream \<and>
            fst (download_video E req w) =
              Render ''home.html''
                [(''error'', CStr (str ''No suitable stream found'')), (''url'', CStr url)] \<and>
            downloads (snd (download_video E req w)) = downloads w)"
proof -
  note dv = download_video_downloads[OF assms(1-4), of E w]
  have sel: "downloads (snd (download_video E req w)) = downloads w @ [s]"
    if "pick_stream yt q = Inr s" "makedirs E = None" "yt_title yt = Inr title" for s title
    using download_try_selected[OF assms(5,6) that] dv by simp
  show ?thesis
  proof (intro conjI impI)
    assume a: "q = str ''highest'' \<and> ss \<noteq> [] \<and> makedirs E = None \<and> (\<exists>title. yt_title yt = Inr title)"
    then obtain title where ti: "yt_title yt = Inr title" by blast
    from a have m: "makedirs E = None" and q: "q = str ''highest''" and ne: "ss \<noteq> []" by simp_all
    from pick_highest[OF assms(7) ne] obtain s where s: "pick_stream yt q = Inr s" "s \<in> set ss"
      "\<forall>t \<in> set ss. res_value (resolution t) \<le> res_value (resolution s)"
      unfolding q by blast
    from sel[OF s(1) m ti] s(2,3)
    show "\<exists>s. downloads (snd (download_video E req w)) = downloads w @ [s] \<and> s \<in> set ss \<and>
        (\<forall>t \<in> set ss. res_value (resolution t) \<le> res_value (resolution s))"
      by blast
  next
    assume a: "q = str ''lowest'' \<and> ss \<noteq> [] \<and> makedirs E = None \<and> (\<exists>title. yt_title yt = Inr title)"
    then obtain title where ti: "yt_title yt = Inr title" by blast
    from a have m: "makedirs E = None" and q: "q = str ''lowest''" and ne: "ss \<noteq> []" by simp_all
    from pick_lowest[OF assms(7) ne] obtain s where s: "pick_stream yt q = Inr s" "s \<in> set ss"
      "\<forall>t \<in> set ss. res_value (resolution s) \<le> res_value (resolution t)"
      unfolding q by blast
    from sel[OF s(1) m ti] s(2,3)
    show "\<exists>s. downloads (snd (download_video E req w)) = downloads w @ [s] \<and> s \<in> set ss \<and>
        (\<forall>t \<in> set ss. res_value (resolution s) \<le> res_value (resolution t))"
      by blast
  next
    assume a: "q \<noteq> str ''highest'' \<and> q \<noteq> str ''lowest'' \<and> (\<exists>s \<in> set ss. resolution s = q) \<and>
        makedirs E = None \<and> (\<exists>title. yt_title yt = Inr title)"
    then obtain title where ti: "yt_title yt = Inr title" by blast
    from a have m: "makedirs E = None" and q: "q \<noteq> str ''highest''" "q \<noteq> str ''lowest''"
      and ex: "\<exists>s \<in> set ss. resolution s = q" by simp_all
    from pick_label[OF assms(7) q ex] obtain s where s: "pick_stream yt q = Inr s" "s \<in> set ss"
      "resolution s = q"
      by blast
    from sel[OF s(1) m ti] s(2,3)
    show "\<exists>s. downloads (snd (download_video E req w)) = downloads w @ [s] \<and> s \<in> set ss \<and>
        resolution s = q"
      by blast
  next
    assume a: "ss = [] \<or> (q \<noteq> str ''highest'' \<and> q \<noteq> str ''lowest'' \<and> (\<forall>s \<in> set ss. resolution s \<noteq> q))"
    have p: "pick_stream yt q = Inl NoSuitableStream"
    proof (cases "ss = []")
      case True
      with assms(7) show ?thesis by (simp add: pick_empty)
    next
      case False
      with a have q: "q \<noteq> str ''highest''" "q \<noteq> str ''lowest''"
        and no: "\<forall>s \<in> set ss. resolution s \<noteq> q"
        by simp_all
      from pick_absent[OF assms(7) q no] show ?thesis .
    qed
    note n = download_try_not_selected[OF assms(5,6) p]
    from n show "fst (download_try E url q w) = Inl NoSuitableStream" by simp
    from n show "fst (download_video E req w) =
        Render ''home.html'' [(''error'', CStr (str ''No suitable stream found'')), (''url'', CStr url)]"
      by (simp add: download_video_no_stream[OF assms(1-4)])
    from n dv show "downloads (snd (download_video E req w)) = downloads w" by simp
  qed
qed

text \<open>The example of the specification: streams at 360p, 480p and 720p.\<close>

lemma good_fetch: "fst (get_yt_object good_env u 3 w) = Inr ex_handle"
  by (simp add: get_yt_object_def good_env_def)

lemma example_streams:
  "s \<in> set [s360, s480, s720] \<Longrightarrow>
   \<forall>t \<in> set [s360, s480, s720]. res_value (resolution t) \<le> res_value (resolution s) \<Longrightarrow> s = s720"
  "s \<in> set [s360, s480, s720] \<Longrightarrow>
   \<forall>t \<in> set [s360, s480, s720]. res_value (resolution s) \<le> res_value (resolution t) \<Longrightarrow> s = s360"
  "s \<in> set [s360, s480, s720] \<Longrightarrow> resolution s = str ''480p'' \<Longrightarrow> s = s480"
  by (auto simp: s360_def s480_def s720_def res_value_def str_def ord_def)

lemma example_no_1080p: "\<forall>s \<in> set [s360, s480, s720]. resolution s \<noteq> str ''1080p''"
  by (simp add: s360_def s480_def s720_def str_def ord_def)

lemma example_has_480p: "\<exists>s \<in> set [s360, s480, s720]. resolution s = str ''480p''"
  by (simp add: s480_def)

lemma example_handle:
  "yt_streams ex_handle = Inr [s360, s480, s720]" "\<exists>title. yt_title ex_handle = Inr title"
  "makedirs good_env = None"
  by (simp_all add: ex_handle_def good_env_def)

lemma downloads_w0: "downloads w0 = []"
  by (simp add: downloads_def w0_def)

theorem stream_selection_policy_witness:
  "sanitize_youtube_url (str ''https://youtu.be/abc12345678'') =
     Inr (str ''https://www.youtube.com/watch?v=abc12345678'') \<and>
   fst (get_yt_object good_env (str ''https://www.youtube.com/watch?v=abc12345678'') 3
          (emit (Ev_sanitize (str ''https://youtu.be/abc12345678'')) w0)) = Inr ex_handle \<and>
   yt_streams ex_handle = Inr [s360, s480, s720] \<and>
   downloads (snd (download_video good_env
       (post (Map.empty(''url'' \<mapsto> str ''https://youtu.be/abc12345678'',
                        ''quality'' \<mapsto> str ''highest''))) w0)) = [s720] \<and>
   downloads (snd (download_video good_env
       (post (Map.empty(''url'' \<mapsto> str ''https://youtu.be/abc12345678'',
                        ''quality'' \<mapsto> str ''lowest''))) w0)) = [s360] \<and>
   downloads (snd (download_video good_env
       (post (Map.empty(''url'' \<mapsto> str ''https://youtu.be/abc12345678'',
                        ''quality'' \<mapsto> str ''480p''))) w0)) = [s480] \<and>
   fst (download_video good_env
       (post (Map.empty(''url'' \<mapsto> str ''https://youtu.be/abc12345678'',
                        ''quality'' \<mapsto> str ''1080p''))) w0) =
     Render ''home.html''
       [(''error'', CStr (str ''No suitable stream found'')),
        (''url'', CStr (str ''https://youtu.be/abc12345678''))]"
proof -
  let ?u = "str ''https://youtu.be/abc12345678''"
  let ?c = "str ''https://www.youtube.com/watch?v=abc12345678''"
  let ?req = "\<lambda>q. post (Map.empty(''url'' \<mapsto> ?u, ''quality'' \<mapsto> q))"
  let ?ss = "[s360, s480, s720]"
  have p: "req_method (?req q) = str ''POST''" "strip (POST_get (?req q) ''url'' []) = ?u"
    "POST_get (?req q) ''quality'' (str ''highest'') = q" for q
    by (simp_all add: post_def POST_get_def strip_example)
  note t = stream_selection_policy
    [OF p(1,2) url_example_nonempty p(3) sanitize_example good_fetch example_handle(1), of _ w0]
  have "\<exists>s. downloads (snd (download_video good_env (?req (str ''highest'')) w0)) = downloads w0 @ [s] \<and>
      s \<in> set ?ss \<and> (\<forall>t \<in> set ?ss. res_value (resolution t) \<le> res_value (resolution s))"
    using t[of "str ''highest''", THEN conjunct1] example_handle(2,3) by simp
  then obtain s1 where s1: "downloads (snd (download_video good_env (?req (str ''highest'')) w0)) = [s1]"
    "s1 \<in> set ?ss" "\<forall>t \<in> set ?ss. res_value (resolution t) \<le> res_value (resolution s1)"
    unfolding downloads_w0 by auto
  from example_streams(1)[OF s1(2,3)] s1(1)
  have h: "downloads (snd (download_video good_env (?req (str ''highest'')) w0)) = [s720]"
    by simp
  have "\<exists>s. downloads (snd (download_video good_env (?req (str ''lowest'')) w0)) = downloads w0 @ [s] \<and>
      s \<in> set ?ss \<and> (\<forall>t \<in> set ?ss. res_value (resolution s) \<le> res_value (resolution t))"
    using t[of "str ''lowest''", THEN conjunct2, THEN conjunct1] example_handle(2,3) by simp
  then obtain s2 where s2: "downloads (snd (download_video good_env (?req (str ''lowest'')) w0)) = [s2]"
    "s2 \<in> set ?ss" "\<forall>t \<in> set ?ss. res_value (resolution s2) \<le> res_value (resolution t)"
    unfolding downloads_w0 by auto
  from example_streams(2)[OF s2(2,3)] s2(1)
  have l: "downloads (snd (download_video good_env (?req (str ''lowest'')) w0)) = [s360]"
    by simp
  have "\<exists>s. downloads (snd (download_video good_env (?req (str ''480p'')) w0)) = downloads w0 @ [s] \<and>
      s \<in> set ?ss \<and> resolution s = str ''480p''"
    by (rule t[of "str ''480p''", THEN conjunct2, THEN conjunct2, THEN conjunct1, THEN mp])
      (intro conjI example_labels(1,2) example_has_480p example_handle(2,3))
  then obtain s3 where s3: "downloads (snd (download_video good_env (?req (str ''480p'')) w0)) = [s3]"
    "s3 \<in> set ?ss" "resolution s3 = str ''480p''"
    unfolding downloads_w0 by auto
  from example_streams(3)[OF s3(2,3)] s3(1)
  have m: "downloads (snd (download_video good_env (?req (str ''480p'')) w0)) = [s480]"
    by simp
  have n: "fst (download_video good_env (?req (str ''1080p'')) w0) =
      Render ''home.html''
        [(''error'', CStr (str ''No suitable stream found'')), (''url'', CStr ?u)]"
    using t[of "str ''1080p''", THEN conjunct2, THEN conjunct2, THEN conjunct2]
      example_no_1080p example_labels(3,4) by simp
  show ?thesis
    by (intro conjI) (rule sanitize_example good_fetch example_handle(1) h l m n)+
qed


text \<open>
  C9. When the \<open>quality\<close> field is absent, the download handler runs exactly as on the
  same submission with \<open>quality\<close> set to \<open>highest\<close>, response and effects alike, and
  the stream it retrieves is one of maximum resolution.
\<close>

theorem default_quality_is_highest:
  "req_POST req ''quality'' = None \<Longrightarrow>
   download_video E req w =
     download_video E (req\<lparr>req_POST := (req_POST req)(''quality'' \<mapsto> str ''highest'')\<rparr>) w \<and>
   select_stream yt (POST_get req ''quality'' (str ''highest'')) =
     bind (yt_streams yt) (\<lambda>ss. Inr (get_highest_resolution ss)) \<and>
   (req_method req = str ''POST'' \<and> strip (POST_get req ''url'' []) = url \<and> url \<noteq> [] \<and>
    sanitize_youtube_url url = Inr clean \<and>
    fst (get_yt_object E clean 3 (emit (Ev_sanitize url) w)) = Inr yt \<and>
    yt_streams yt = Inr ss \<longrightarrow>
      (ss \<noteq> [] \<and> makedirs E = None \<and> (\<exists>title. yt_title yt = Inr title) \<longrightarrow>
         (\<exists>s. downloads (snd (download_video E req w)) = downloads w @ [s] \<and> s \<in> set ss \<and>
              (\<forall>t \<in> set ss. res_value (resolution t) \<le> res_value (resolution s)))) \<and>
      (ss = [] \<longrightarrow>
         fst (download_video E req w) =
           Render ''home.html''
             [(''error'', CStr (str ''No suitable stream found'')), (''url'', CStr url)]))"
proof (intro conjI impI)
  assume n: "req_POST req ''quality'' = None"
  then show "download_video E req w =
      download_video E (req\<lparr>req_POST := (req_POST req)(''quality'' \<mapsto> str ''highest'')\<rparr>) w"
    by (simp add: download_video_def POST_get_def)
  from n show "select_stream yt (POST_get req ''quality'' (str ''highest'')) =
      bind (yt_streams yt) (\<lambda>ss. Inr (get_highest_resolution ss))"
    by (simp add: POST_get_def select_stream_def)
next
  assume n: "req_POST req ''quality'' = None"
    and a: "req_method req = str ''POST'' \<and> strip (POST_get req ''url'' []) = url \<and> url \<noteq> [] \<and>
      sanitize_youtube_url url = Inr clean \<and>
      fst (get_yt_object E clean 3 (emit (Ev_sanitize url) w)) = Inr yt \<and>
      yt_streams yt = Inr ss"
    and b: "ss \<noteq> [] \<and> makedirs E = None \<and> (\<exists>title. yt_title yt = Inr title)"
  from n have q: "POST_get req ''quality'' (str ''highest'') = str ''highest''"
    by (simp add: POST_get_def)
  from a have r: "req_method req = str ''POST''" "strip (POST_get req ''url'' []) = url" "url \<noteq> []"
    and s: "sanitize_youtube_url url = Inr clean"
    and f: "fst (get_yt_object E clean 3 (emit (Ev_sanitize url) w)) = Inr yt"
    and ss: "yt_streams yt = Inr ss"
    by simp_all
  from b obtain title where ti: "yt_title yt = Inr title" by blast
  from b have m: "makedirs E = None" and ne: "ss \<noteq> []" by simp_all
  from pick_highest[OF ss ne] obtain s0 where s0: "pick_stream yt (str ''highest'') = Inr s0"
    "s0 \<in> set ss" "\<forall>t \<in> set ss. res_value (resolution t) \<le> res_value (resolution s0)"
    by blast
  have "downloads (snd (download_video E req w)) = downloads w @ [s0]"
    using download_try_selected[OF s f s0(1) m ti] download_video_downloads[OF r q, of E w]
    by simp
  with s0(2,3)
  show "\<exists>s. downloads (snd (download_video E req w)) = downloads w @ [s] \<and> s \<in> set ss \<and>
      (\<forall>t \<in> set ss. res_value (resolution t) \<le> res_value (resolution s))"
    by blast
next
  assume n: "req_POST req ''quality'' = None"
    and a: "req_method req = str ''POST'' \<and> strip (POST_get req ''url'' []) = url \<and> url \<noteq> [] \<and>
      sanitize_youtube_url url = Inr clean \<and>
      fst (get_yt_object E clean 3 (emit (Ev_sanitize url) w)) = Inr yt \<and>
      yt_streams yt = Inr ss"
    and e: "ss = []"
  from n have q: "POST_get req ''quality'' (str ''highest'') = str ''highest''"
    by (simp add: POST_get_def)
  from a have r: "req_method req = str ''POST''" "strip (POST_get req ''url'' []) = url" "url \<noteq> []"
    and s: "sanitize_youtube_url url = Inr clean"
    and f: "fst (get_yt_object E clean 3 (emit (Ev_sanitize url) w)) = Inr yt"
    and ss: "yt_streams yt = Inr ss"
    by simp_all
  from ss e have p: "pick_stream yt (str ''highest'') = Inl NoSuitableStream"
    by (simp add: pick_empty)
  from download_try_not_selected[OF s f p]
  show "fst (download_video E req w) =
      Render ''home.html'' [(''error'', CStr (str ''No suitable stream found'')), (''url'', CStr url)]"
    by (simp add: download_video_no_stream[OF r q])
qed

theorem default_quality_is_highest_witness:
  "req_POST (post (Map.empty(''url'' \<mapsto> str ''https://youtu.be/abc12345678''))) ''quality'' = None \<and>
   download_video good_env (post (Map.empty(''url'' \<mapsto> str ''https://youtu.be/abc12345678''))) w0 =
     download_video good_env
       (post (Map.empty(''url'' \<mapsto> str ''https://youtu.be/abc12345678'',
                        ''quality'' \<mapsto> str ''highest''))) w0 \<and>
   sanitize_youtube_url (str ''https://youtu.be/abc12345678'') =
     Inr (str ''https://www.youtube.com/watch?v=abc12345678'') \<and>
   fst (get_yt_object good_env (str ''https://www.youtube.com/watch?v=abc12345678'') 3
          (emit (Ev_sanitize (str ''https://youtu.be/abc12345678'')) w0)) = Inr ex_handle \<and>
   yt_streams ex_handle = Inr [s360, s480, s720] \<and>
   downloads (snd (download_video good_env
       (post (Map.empty(''url'' \<mapsto> str ''https://youtu.be/abc12345678''))) w0)) = [s720]"
proof -
  let ?u = "str ''https://youtu.be/abc12345678''"
  let ?req = "post (Map.empty(''url'' \<mapsto> ?u))"
  let ?ss = "[s360, s480, s720]"
  have n: "req_POST ?req ''quality'' = None"
    by (simp add: post_def)
  have p: "req_method ?req = str ''POST''" "strip (POST_get ?req ''url'' []) = ?u"
    by (simp_all add: post_def POST_get_def strip_example)
  note t = default_quality_is_highest
    [OF n, of good_env w0 ex_handle ?u "str ''https://www.youtube.com/watch?v=abc12345678''" ?ss]
  have e: "download_video good_env ?req w0 =
      download_video good_env (post (Map.empty(''url'' \<mapsto> ?u, ''quality'' \<mapsto> str ''highest''))) w0"
    using t[THEN conjunct1] by (simp add: post_def)
  have "\<exists>s. downloads (snd (download_video good_env ?req w0)) = downloads w0 @ [s] \<and>
      s \<in> set ?ss \<and> (\<forall>t \<in> set ?ss. res_value (resolution t) \<le> res_value (resolution s))"
    by (rule t[THEN conjunct2, THEN conjunct2, THEN mp, THEN conjunct1, THEN mp])
      (intro conjI p url_example_nonempty sanitize_example good_fetch example_handle(1),
       simp, intro conjI example_handle(2,3))
  then obtain s1 where s1: "downloads (snd (download_video good_env ?req w0)) = [s1]"
    "s1 \<in> set ?ss" "\<forall>t \<in> set ?ss. res_value (resolution t) \<le> res_value (resolution s1)"
    unfolding downloads_w0 by auto
  from example_streams(1)[OF s1(2,3)] s1(1)
  have h: "downloads (snd (download_video good_env ?req w0)) = [s720]"
    by simp
  show ?thesis
    by (intro conjI) (rule n e sanitize_example good_fetch example_handle(1) h)+
qed

end
